theory Spec2Isabelle
  imports Main "HOL-Library.Word" "HOL-Library.Multiset"
begin

unbundle bit_operations_syntax

section \<open>On-disk layout\<close>

text \<open>
  The checker maps the image file into memory and reads every structure through pointer
  casts. The mapped image is a byte-addressed memory, given here as a total function
  from the byte offset (a byte past the end of the file is not distinguished from one
  inside it). Multi-byte fields are little-endian, as on the x86 machines xv6 runs on.
\<close>

type_synonym image = "int \<Rightarrow> 8 word"

definition rd16 :: "image \<Rightarrow> int \<Rightarrow> 16 word" where
  "rd16 m a = word_of_int (uint (m a) + 256 * uint (m (a + 1)))"

definition rd32 :: "image \<Rightarrow> int \<Rightarrow> 32 word" where
  "rd32 m a = word_of_int (uint (m a) + 256 * uint (m (a + 1)) + 65536 * uint (m (a + 2))
                             + 16777216 * uint (m (a + 3)))"

text \<open>
  Modelled from the spec: the headers \<open>include/types.h\<close> and \<open>include/fs.h\<close> are not
  part of the sources. The specification fixes the shape of the records (section 6: a
  superblock of total blocks, data blocks and inode count; an inode of type, link count,
  size, direct slots and one indirect slot of 4 bytes each; a directory entry of a 2-byte
  inode number and a fixed-length name). The numeric constants are those of the xv6 file
  system the checker is written for.
\<close>

definition BSIZE :: int where "BSIZE = 512"
definition NDIRECT :: nat where "NDIRECT = 12"
definition NINDIRECT :: nat where "NINDIRECT = nat (BSIZE div 4)"
definition DIRSIZ :: nat where "DIRSIZ = 14"
definition sizeof_dinode :: int where "sizeof_dinode = 12 + 4 * (int NDIRECT + 1)"
definition sizeof_dirent :: int where "sizeof_dirent = 2 + int DIRSIZ"
definition IPB :: int where "IPB = BSIZE div sizeof_dinode"
definition BPB :: int where "BPB = BSIZE * 8"

record superblock =
  size_sb :: "32 word"
  nblocks :: "32 word"
  ninodes :: "32 word"

record dinode =
  type :: "16 word"
  major :: "16 word"
  minor :: "16 word"
  nlink :: "16 word"
  size_d :: "32 word"
  addrs :: "32 word list"

record dirent =
  inum :: "16 word"
  name :: "8 word list"

definition read_superblock :: "image \<Rightarrow> int \<Rightarrow> superblock" where
  "read_superblock m p =
     \<lparr>size_sb = rd32 m p, nblocks = rd32 m (p + 4), ninodes = rd32 m (p + 8)\<rparr>"

definition read_dinode :: "image \<Rightarrow> int \<Rightarrow> dinode" where
  "read_dinode m p =
     \<lparr>type = rd16 m p, major = rd16 m (p + 2), minor = rd16 m (p + 4),
      nlink = rd16 m (p + 6), size_d = rd32 m (p + 8),
      addrs = map (\<lambda>k. rd32 m (p + 12 + 4 * int k)) [0..<NDIRECT + 1]\<rparr>"

definition read_dirent :: "image \<Rightarrow> int \<Rightarrow> dirent" where
  "read_dirent m p =
     \<lparr>inum = rd16 m p, name = map (\<lambda>k. m (p + 2 + int k)) [0..<DIRSIZ]\<rparr>"

text \<open>\<open>mmapimage + address * BLOCK_SIZE\<close>: the product is taken in \<open>unsigned int\<close>.\<close>

definition block_offset :: "32 word \<Rightarrow> int" where
  "block_offset address = uint (address * word_of_int BSIZE)"

text \<open>\<open>((struct dinode *) inodeblocks) + i\<close>, with \<open>inodeblocks = mmapimage + 2 * BLOCK_SIZE\<close>.\<close>

definition inodeblocks :: int where
  "inodeblocks = 2 * BSIZE"

definition inode_at :: "image \<Rightarrow> nat \<Rightarrow> dinode" where
  "inode_at m i = read_dinode m (inodeblocks + int i * sizeof_dinode)"

text \<open>Entry \<open>j\<close> of the block at \<open>address\<close>, seen as an array of directory entries.\<close>

definition dirent_at :: "image \<Rightarrow> 32 word \<Rightarrow> nat \<Rightarrow> dirent" where
  "dirent_at m address j = read_dirent m (block_offset address + int j * sizeof_dirent)"

definition entries_per_block :: nat where
  "entries_per_block = nat (BSIZE div sizeof_dirent)"

text \<open>Entry \<open>i\<close> of the block at \<open>address\<close>, seen as an array of block addresses.\<close>

definition indirect_at :: "image \<Rightarrow> 32 word \<Rightarrow> nat \<Rightarrow> 32 word" where
  "indirect_at m address i = rd32 m (block_offset address + 4 * int i)"

text \<open>
  \<open>strcmp(s, lit) == 0\<close> for a literal shorter than the name field: the bytes of \<open>s\<close>
  up to its first NUL are those of the literal.
\<close>

definition strcmp_eq :: "8 word list \<Rightarrow> string \<Rightarrow> bool" where
  "strcmp_eq s lit = (takeWhile (\<lambda>b. b \<noteq> 0) s = map (\<lambda>c. of_char c) lit)"

section \<open>Errors and loops\<close>

text \<open>
  \<open>exit_with_error\<close> writes one line to standard error and ends the process with
  status 1; \<open>Exit\<close> carries the bytes written. An index outside a local array is
  undefined behaviour in C; the model stops there with \<open>OutOfBounds\<close>.
\<close>

datatype err = Exit string | OutOfBounds

text \<open>The line \<open>fprintf(stderr, "ERROR: %s\n", error_message)\<close> writes.\<close>

definition error_line :: "string \<Rightarrow> string" where
  "error_line error_message = ''ERROR: '' @ error_message @ [CHR 0x0A]"

definition exit_with_error :: "string \<Rightarrow> err + 'a" where
  "exit_with_error error_message = Inl (Exit (error_line error_message))"

text \<open>A \<open>for\<close> loop over the given indices that threads a state and stops at the first error.\<close>

fun for_loop :: "'i list \<Rightarrow> ('i \<Rightarrow> 's \<Rightarrow> err + 's) \<Rightarrow> 's \<Rightarrow> err + 's" where
  "for_loop [] body s = Inr s"
| "for_loop (i # is) body s =
     (case body i s of Inl e \<Rightarrow> Inl e | Inr s' \<Rightarrow> for_loop is body s')"

text \<open>The same for a loop without state.\<close>

fun for_each :: "'i list \<Rightarrow> ('i \<Rightarrow> err + unit) \<Rightarrow> err + unit" where
  "for_each [] body = Inr ()"
| "for_each (i # is) body =
     (case body i of Inl e \<Rightarrow> Inl e | Inr _ \<Rightarrow> for_each is body)"

text \<open>Sequencing of two steps: the second runs only if the first did not stop the process.\<close>

definition andthen :: "err + unit \<Rightarrow> err + 'a \<Rightarrow> err + 'a" where
  "andthen a b = (case a of Inl e \<Rightarrow> Inl e | Inr _ \<Rightarrow> b)"

text \<open>Stores into a local array of known length, at an index that is never negative.\<close>

definition array_set :: "'a list \<Rightarrow> int \<Rightarrow> 'a \<Rightarrow> err + 'a list" where
  "array_set xs i v =
     (if i < int (length xs) then Inr (xs[nat i := v]) else Inl OutOfBounds)"

definition array_incr :: "('a::{plus,one}) list \<Rightarrow> int \<Rightarrow> err + 'a list" where
  "array_incr xs i =
     (if i < int (length xs) then Inr (xs[nat i := xs ! nat i + 1]) else Inl OutOfBounds)"

section \<open>Checks on each inode\<close>

definition INODE_FILE :: "16 word" where "INODE_FILE = 2"
definition INODE_DIR :: "16 word" where "INODE_DIR = 1"
definition INODE_DEV :: "16 word" where "INODE_DEV = 3"

text \<open>
  The \<open>char\<close> mask array of \<open>is_bit_set\<close>; \<open>bitmapblocks\<close> is the byte offset of the
  bitmap in the image.
\<close>

definition bitarr :: "8 word list" where
  "bitarr = [0x01, 0x02, 0x04, 0x08, 0x10, 0x20, 0x40, 0x80]"

definition is_bit_set :: "image \<Rightarrow> int \<Rightarrow> 32 word \<Rightarrow> bool" where
  "is_bit_set m bitmapblocks blockaddr =
     (m (bitmapblocks + uint blockaddr div 8) AND bitarr ! nat (uint blockaddr mod 8) \<noteq> 0)"

definition validate_inode_type :: "dinode \<Rightarrow> err + unit" where
  "validate_inode_type inode =
     (let is_invalid_inode_type =
            (type inode \<noteq> INODE_FILE \<and> type inode \<noteq> INODE_DIR \<and> type inode \<noteq> INODE_DEV)
      in if is_invalid_inode_type then exit_with_error ''bad inode.'' else Inr ())"

definition validate_block_addresses :: "superblock \<Rightarrow> dinode \<Rightarrow> image \<Rightarrow> err + unit" where
  "validate_block_addresses sb inode m =
     andthen
       (for_each [0..<NDIRECT] (\<lambda>block_index.
          let address = addrs inode ! block_index
          in if address \<noteq> 0 \<and> address \<ge> size_sb sb
             then exit_with_error ''bad direct address in inode.'' else Inr ()))
       (let indirect_block_address = addrs inode ! NDIRECT
        in if indirect_block_address = 0 then Inr ()
           else if indirect_block_address \<ge> size_sb sb
           then exit_with_error ''bad indirect address in inode.''
           else for_each [0..<NINDIRECT] (\<lambda>idx.
                  let current_block_address = indirect_at m indirect_block_address idx
                  in if current_block_address \<noteq> 0 \<and> current_block_address \<ge> size_sb sb
                     then exit_with_error ''bad indirect address in inode.'' else Inr ()))"

text \<open>
  The inner loop of \<open>validate_directory_structure\<close> over the entries of one block; the
  state is \<open>(found_dot, found_dotdot)\<close>, and the loop is left as soon as both are set.
\<close>

fun scan_block :: "image \<Rightarrow> 32 word \<Rightarrow> nat \<Rightarrow> nat list \<Rightarrow> bool \<times> bool \<Rightarrow> err + bool \<times> bool" where
  "scan_block m block_address inode_number [] found = Inr found"
| "scan_block m block_address inode_number (entry_idx # rest) (found_dot, found_dotdot) =
     (let directory_entry = dirent_at m block_address entry_idx
      in if strcmp_eq (name directory_entry) ''.''
         then if unat (inum directory_entry) \<noteq> inode_number
              then exit_with_error ''directory not properly formatted''
              else if found_dotdot then Inr (True, found_dotdot)
              else scan_block m block_address inode_number rest (True, found_dotdot)
         else if strcmp_eq (name directory_entry) ''..''
         then let root_dir_issue =
                    ((inode_number = 1 \<and> unat (inum directory_entry) \<noteq> inode_number) \<or>
                     (inode_number \<noteq> 1 \<and> unat (inum directory_entry) = inode_number))
              in if root_dir_issue then exit_with_error ''root directory does not exist.''
                 else if found_dot then Inr (found_dot, True)
                 else scan_block m block_address inode_number rest (found_dot, True)
         else if found_dot \<and> found_dotdot then Inr (found_dot, found_dotdot)
         else scan_block m block_address inode_number rest (found_dot, found_dotdot))"

text \<open>The outer loop over the direct slots, left as soon as both entries are found.\<close>

fun scan_direct :: "image \<Rightarrow> dinode \<Rightarrow> nat \<Rightarrow> nat list \<Rightarrow> bool \<times> bool \<Rightarrow> err + bool \<times> bool" where
  "scan_direct m inode inode_number [] found = Inr found"
| "scan_direct m inode inode_number (dir_idx # rest) found =
     (let block_address = addrs inode ! dir_idx
      in if block_address = 0 then scan_direct m inode inode_number rest found
         else case scan_block m block_address inode_number [0..<entries_per_block] found of
                Inl e \<Rightarrow> Inl e
              | Inr (found_dot, found_dotdot) \<Rightarrow>
                  if found_dot \<and> found_dotdot then Inr (found_dot, found_dotdot)
                  else scan_direct m inode inode_number rest (found_dot, found_dotdot))"

definition validate_directory_structure :: "dinode \<Rightarrow> image \<Rightarrow> nat \<Rightarrow> err + unit" where
  "validate_directory_structure inode m inode_number =
     (case scan_direct m inode inode_number [0..<NDIRECT] (False, False) of
        Inl e \<Rightarrow> Inl e
      | Inr (found_dot, found_dotdot) \<Rightarrow>
          if \<not> found_dot \<or> \<not> found_dotdot
          then exit_with_error ''directory not properly formatted.'' else Inr ())"

definition validate_bitmap_addr :: "int \<Rightarrow> dinode \<Rightarrow> image \<Rightarrow> err + unit" where
  "validate_bitmap_addr bitmapblocks inode m =
     for_each [0..<NDIRECT + 1] (\<lambda>idx.
       let address = addrs inode ! idx
       in if address \<noteq> 0 \<and> \<not> is_bit_set m bitmapblocks address
          then exit_with_error ''address used by inode but marked free in bitmap.''
          else if idx = NDIRECT
          then for_each [0..<NINDIRECT] (\<lambda>indirect_idx.
                 let indirect_address = indirect_at m address indirect_idx
                 in if indirect_address \<noteq> 0 \<and> \<not> is_bit_set m bitmapblocks indirect_address
                    then exit_with_error ''address used by inode but marked free in bitmap.''
                    else Inr ())
          else Inr ())"

text \<open>
  The body of the loop of \<open>validate_inodes\<close> for one inode index. The loops over the
  inodes and the blocks count with an \<open>int\<close> up to an \<open>unsigned int\<close> bound; the
  model runs them over the indices below the bound, which is what the code does for the
  bounds below \<open>2^31\<close>.
\<close>

definition validate_inode :: "int \<Rightarrow> image \<Rightarrow> superblock \<Rightarrow> nat \<Rightarrow> err + unit" where
  "validate_inode bitmapblocks m sb inode_index =
     (let current_inode = inode_at m inode_index
      in if type current_inode = 0 then Inr ()
         else
           andthen (validate_inode_type current_inode)
          (andthen (validate_block_addresses sb current_inode m)
          (andthen
             (if inode_index = 1
              then if type current_inode \<noteq> INODE_DIR
                   then exit_with_error ''root directory does not exist.''
                   else validate_directory_structure current_inode m 1
              else if type current_inode = INODE_DIR
              then validate_directory_structure current_inode m inode_index
              else Inr ())
             (validate_bitmap_addr bitmapblocks current_inode m))))"

definition validate_inodes :: "int \<Rightarrow> image \<Rightarrow> superblock \<Rightarrow> err + unit" where
  "validate_inodes bitmapblocks m sb =
     for_each [0..<unat (ninodes sb)] (validate_inode bitmapblocks m sb)"

section \<open>Bitmap against use\<close>

text \<open>
  The stores into \<open>used_blocks_array\<close> of one inode, in the order the code makes them:
  the index is \<open>address - starting_block\<close> in \<open>unsigned int\<close>.
\<close>

definition get_active_data_blocks ::
    "dinode \<Rightarrow> int list \<Rightarrow> image \<Rightarrow> 32 word \<Rightarrow> err + int list" where
  "get_active_data_blocks inode used_blocks_array m starting_block =
     for_loop [0..<NDIRECT + 1] (\<lambda>addr_idx used.
       let address = addrs inode ! addr_idx
       in if address = 0 then Inr used
          else case array_set used (uint (address - starting_block)) 1 of
                 Inl e \<Rightarrow> Inl e
               | Inr used' \<Rightarrow>
                   if addr_idx = NDIRECT
                   then for_loop [0..<NINDIRECT] (\<lambda>indirect_idx u.
                          let indirect_address = indirect_at m address indirect_idx
                          in if indirect_address \<noteq> 0
                             then array_set u (uint (indirect_address - starting_block)) 1
                             else Inr u) used'
                   else Inr used') used_blocks_array"

definition verify_bitmap_usage :: "int \<Rightarrow> image \<Rightarrow> superblock \<Rightarrow> 32 word \<Rightarrow> err + unit" where
  "verify_bitmap_usage bitmapblocks m sb start_block =
     (case for_loop [0..<unat (ninodes sb)] (\<lambda>inode_idx blocks_in_use.
             let current_inode = inode_at m inode_idx
             in if type current_inode = 0 then Inr blocks_in_use
                else get_active_data_blocks current_inode blocks_in_use m start_block)
           (replicate (unat (nblocks sb)) 0) of
        Inl e \<Rightarrow> Inl e
      | Inr blocks_in_use \<Rightarrow>
          for_each [0..<unat (nblocks sb)] (\<lambda>block_idx.
            let actual_block_addr = of_nat block_idx + start_block
            in if blocks_in_use ! block_idx = 0 \<and> is_bit_set m bitmapblocks actual_block_addr
               then exit_with_error ''bitmap marks block in use but it is not in use.''
               else Inr ()))"

section \<open>Uniqueness of block addresses\<close>

definition tally_direct_block_usage ::
    "dinode \<Rightarrow> 32 word list \<Rightarrow> 32 word \<Rightarrow> err + 32 word list" where
  "tally_direct_block_usage target_inode direct_usage_array start_block =
     for_loop [0..<NDIRECT] (\<lambda>idx usage.
       let address = addrs target_inode ! idx
       in if address = 0 then Inr usage
          else array_incr usage (uint (address - start_block))) direct_usage_array"

definition count_indirect_block_usage ::
    "dinode \<Rightarrow> 32 word list \<Rightarrow> image \<Rightarrow> 32 word \<Rightarrow> err + 32 word list" where
  "count_indirect_block_usage target_inode indirect_usage_array fs_image start_block =
     (let indirect_block_address = addrs target_inode ! NDIRECT
      in if indirect_block_address = 0 then Inr indirect_usage_array
         else for_loop [0..<NINDIRECT] (\<lambda>idx usage.
                let current_address = indirect_at fs_image indirect_block_address idx
                in if current_address \<noteq> 0
                   then array_incr usage (uint (current_address - start_block))
                   else Inr usage) indirect_usage_array)"

text \<open>The accumulation loop: the state is the pair of counter arrays.\<close>

definition accumulate_usage ::
    "image \<Rightarrow> superblock \<Rightarrow> 32 word \<Rightarrow> err + 32 word list \<times> 32 word list" where
  "accumulate_usage fs_image sb start_block =
     for_loop [0..<unat (ninodes sb)] (\<lambda>inode_idx (direct_usage_counts, indirect_usage_counts).
       let current_inode = inode_at fs_image inode_idx
       in if type current_inode = 0 then Inr (direct_usage_counts, indirect_usage_counts)
          else case tally_direct_block_usage current_inode direct_usage_counts start_block of
                 Inl e \<Rightarrow> Inl e
               | Inr direct' \<Rightarrow>
                   (case count_indirect_block_usage current_inode indirect_usage_counts
                           fs_image start_block of
                      Inl e \<Rightarrow> Inl e
                    | Inr indirect' \<Rightarrow> Inr (direct', indirect')))
       (replicate (unat (nblocks sb)) 0, replicate (unat (nblocks sb)) 0)"

text \<open>The final loop over the counters.\<close>

definition check_usage_counts :: "nat \<Rightarrow> 32 word list \<Rightarrow> 32 word list \<Rightarrow> err + unit" where
  "check_usage_counts n direct_usage_counts indirect_usage_counts =
     for_each [0..<n] (\<lambda>block_idx.
       if direct_usage_counts ! block_idx > 1
       then exit_with_error ''direct address used more than once.''
       else if indirect_usage_counts ! block_idx > 1
       then exit_with_error ''indirect address used more than once.''
       else Inr ())"

definition validate_block_address_uniqueness ::
    "image \<Rightarrow> superblock \<Rightarrow> 32 word \<Rightarrow> err + unit" where
  "validate_block_address_uniqueness fs_image sb start_block =
     (case accumulate_usage fs_image sb start_block of
        Inl e \<Rightarrow> Inl e
      | Inr (direct_usage_counts, indirect_usage_counts) \<Rightarrow>
          check_usage_counts (unat (nblocks sb)) direct_usage_counts indirect_usage_counts)"

section \<open>Reference counts\<close>

text \<open>
  The traversal keeps a stack of inode pointers; a pointer \<open>inodeblocks + inum\<close> is
  held as the inode number, with the top of the stack at the head of the list. The stack
  is grown on demand in the code and is unbounded here, and so are the \<open>int\<close>
  counters of \<open>inodemap\<close>.
\<close>

definition count_block_entries ::
    "image \<Rightarrow> 32 word \<Rightarrow> nat list \<times> int list \<Rightarrow> err + nat list \<times> int list" where
  "count_block_entries m blockaddr st =
     for_loop [0..<entries_per_block] (\<lambda>j (stack, inodemap).
       let dir = dirent_at m blockaddr j
       in if inum dir \<noteq> 0 \<and> \<not> strcmp_eq (name dir) ''.'' \<and> \<not> strcmp_eq (name dir) ''..''
          then case array_incr inodemap (uint (inum dir)) of
                 Inl e \<Rightarrow> Inl e
               | Inr inodemap' \<Rightarrow> Inr (unat (inum dir) # stack, inodemap')
          else Inr (stack, inodemap)) st"

text \<open>The body of the \<open>while\<close> loop for a popped directory inode.\<close>

definition scan_directory ::
    "image \<Rightarrow> dinode \<Rightarrow> nat list \<times> int list \<Rightarrow> err + nat list \<times> int list" where
  "scan_directory m current st =
     (case for_loop [0..<NDIRECT] (\<lambda>i st.
             let blockaddr = addrs current ! i
             in if blockaddr = 0 then Inr st else count_block_entries m blockaddr st) st of
        Inl e \<Rightarrow> Inl e
      | Inr st' \<Rightarrow>
          let blockaddr = addrs current ! NDIRECT
          in if blockaddr \<noteq> 0
             then for_loop [0..<NINDIRECT] (\<lambda>i st.
                    let blockaddr' = indirect_at m blockaddr i
                    in if blockaddr' = 0 then Inr st
                       else count_block_entries m blockaddr' st) st'
             else Inr st')"

text \<open>
  The \<open>while (stackTop > 0)\<close> loop. It keeps no record of the inodes it has visited and
  need not end: \<open>None\<close> is a run that never leaves the loop.
\<close>

partial_function (option) scan_loop ::
    "image \<Rightarrow> nat list \<Rightarrow> int list \<Rightarrow> (err + int list) option" where
  "scan_loop m stack inodemap =
     (case stack of
        [] \<Rightarrow> Some (Inr inodemap)
      | current # rest \<Rightarrow>
          if type (inode_at m current) \<noteq> INODE_DIR then scan_loop m rest inodemap
          else (case scan_directory m (inode_at m current) (rest, inodemap) of
                  Inl e \<Rightarrow> Some (Inl e)
                | Inr (stack', inodemap') \<Rightarrow> scan_loop m stack' inodemap'))"

declare scan_loop.simps [code]

definition scan_directory_entries :: "image \<Rightarrow> nat \<Rightarrow> int list \<Rightarrow> (err + int list) option" where
  "scan_directory_entries m rootinode inodemap = scan_loop m [rootinode] inodemap"

text \<open>The final loop of \<open>validate_directory_rules\<close> over the inode indices from 2.\<close>

definition check_references :: "image \<Rightarrow> nat \<Rightarrow> int list \<Rightarrow> err + unit" where
  "check_references m n inode_references =
     for_each [2..<n] (\<lambda>inode_idx.
       let curr_inode = inode_at m inode_idx
       in if type curr_inode \<noteq> 0 \<and> inode_references ! inode_idx = 0
          then exit_with_error ''inode marked use but not found in a directory.''
          else if inode_references ! inode_idx > 0 \<and> type curr_inode = 0
          then exit_with_error ''inode referred to in directory but marked free.''
          else if type curr_inode = INODE_FILE \<and> sint (nlink curr_inode) \<noteq> inode_references ! inode_idx
          then exit_with_error ''bad reference count for file.''
          else if type curr_inode = INODE_DIR \<and> inode_references ! inode_idx > 1
          then exit_with_error ''directory appears more than once in file system.''
          else Inr ())"

definition validate_directory_rules :: "image \<Rightarrow> superblock \<Rightarrow> (err + unit) option" where
  "validate_directory_rules m fs_sb =
     (case array_incr (replicate (unat (ninodes fs_sb)) 0) 0 of
        Inl e \<Rightarrow> Some (Inl e)
      | Inr refs0 \<Rightarrow>
          (case array_incr refs0 1 of
             Inl e \<Rightarrow> Some (Inl e)
           | Inr refs1 \<Rightarrow>
               (case scan_directory_entries m 1 refs1 of
                  None \<Rightarrow> None
                | Some (Inl e) \<Rightarrow> Some (Inl e)
                | Some (Inr inode_references) \<Rightarrow>
                    Some (check_references m (unat (ninodes fs_sb)) inode_references))))"

section \<open>The checker\<close>

text \<open>
  \<open>main\<close>, from the mapped image on: the result is \<open>Some (Inr ())\<close> for \<open>exit(0)\<close>,
  \<open>Some (Inl e)\<close> for a run stopped by \<open>e\<close>, \<open>None\<close> for a run that never ends.
\<close>

definition bitmapblocks_of :: "superblock \<Rightarrow> int" where
  "bitmapblocks_of sb =
     (let numinodeblocks = ninodes sb div word_of_int IPB + 1
      in inodeblocks + uint (numinodeblocks * word_of_int BSIZE))"

definition startingblock_of :: "superblock \<Rightarrow> 32 word" where
  "startingblock_of sb =
     ((ninodes sb div word_of_int IPB) + 1) + ((size_sb sb div word_of_int BPB) + 1) + 2"

definition fcheck :: "image \<Rightarrow> (err + unit) option" where
  "fcheck mmapimage =
     (let sb = read_superblock mmapimage (1 * BSIZE);
          bitmapblocks = bitmapblocks_of sb;
          startingblock = startingblock_of sb
      in case validate_inodes bitmapblocks mmapimage sb of
           Inl e \<Rightarrow> Some (Inl e)
         | Inr _ \<Rightarrow>
             (case verify_bitmap_usage bitmapblocks mmapimage sb startingblock of
                Inl e \<Rightarrow> Some (Inl e)
              | Inr _ \<Rightarrow>
                  (case validate_block_address_uniqueness mmapimage sb startingblock of
                     Inl e \<Rightarrow> Some (Inl e)
                   | Inr _ \<Rightarrow> validate_directory_rules mmapimage sb)))"

section \<open>Concrete images\<close>

text \<open>
  An image given by its non-zero bytes; the first entry for an offset counts, so that a
  variant of an image is written by putting the changed bytes in front.
\<close>

definition image_of_bytes :: "(int \<times> 8 word) list \<Rightarrow> image" where
  "image_of_bytes kvs a = (case map_of kvs a of None \<Rightarrow> 0 | Some b \<Rightarrow> b)"

text \<open>
  A consistent image of 8 blocks with 4 inodes: block 1 is the superblock (size 8, 4 data
  blocks, 4 inodes), block 2 the inode table, block 3 the bitmap (blocks 0 to 5 in use),
  and the data region starts at block 4. Inode 1 is the root directory with its entries
  in block 4: \<open>.\<close> and \<open>..\<close> (both inode 1) and \<open>a\<close> (inode 2). Inode 2 is a regular
  file with one link and the data block 5.
\<close>

definition good_bytes :: "(int \<times> 8 word) list" where
  "good_bytes =
     [(512, 8), (516, 4), (520, 4),
      (1088, 1), (1094, 1), (1100, 4),
      (1152, 2), (1158, 1), (1164, 5),
      (1536, 0x3F),
      (2048, 1), (2050, 0x2E),
      (2064, 1), (2066, 0x2E), (2067, 0x2E),
      (2080, 2), (2082, 0x61)]"

definition good_image :: image where
  "good_image = image_of_bytes good_bytes"

definition good_sb :: superblock where
  "good_sb = \<lparr>size_sb = 8, nblocks = 4, ninodes = 4\<rparr>"

text \<open>The same image with the type of inode 2 set to 7.\<close>

definition bad_type_image :: image where
  "bad_type_image = image_of_bytes ((1152, 7) # good_bytes)"

text \<open>
  The good image with inode 2 turned into a directory whose block 5 starts with an entry
  \<open>.\<close> of inode number 3, followed by \<open>..\<close> of inode number 1.
\<close>

definition dot_image :: image where
  "dot_image = image_of_bytes
     ([(1152, 1), (2560, 3), (2562, 0x2E), (2576, 1), (2578, 0x2E), (2579, 0x2E)] @ good_bytes)"

text \<open>The message texts of section 6 of the specification.\<close>

definition section6_messages :: "string list" where
  "section6_messages =
     [''bad inode.'', ''bad direct address in inode.'', ''bad indirect address in inode.'',
      ''root directory does not exist.'', ''directory not properly formatted.'',
      ''address used by inode but marked free in bitmap.'',
      ''bitmap marks block in use but it is not in use.'',
      ''direct address used more than once.'', ''indirect address used more than once.'',
      ''inode marked use but not found in a directory.'',
      ''inode referred to in directory but marked free.'',
      ''bad reference count for file.'',
      ''directory appears more than once in file system.'']"

text \<open>
  The good image with block 6 in use as the indirect block of inode 2. Inode 2 names
  block 5 in its first two direct slots, and its indirect block names block 4 twice.
\<close>

definition shared_image :: image where
  "shared_image = image_of_bytes
     ([(1168, 5), (1212, 6), (3072, 4), (3076, 4), (1536, 0x7F)] @ good_bytes)"

text \<open>
  The good image with block 6, whose bitmap bit is clear, in the second direct slot of
  the root inode, and with the type of inode 2 set to 7.
\<close>

definition order_image :: image where
  "order_image = image_of_bytes ([(1104, 6), (1152, 7)] @ good_bytes)"

text \<open>The good image with the link count of the file inode 2 set to 2.\<close>

definition nlink_image :: image where
  "nlink_image = image_of_bytes ((1158, 2) # good_bytes)"

text \<open>
  The four rules of section 4.5 of the specification for one inode and its reference
  count, in the order they are listed: the text of the first violated rule, if any.
\<close>

definition spec_reference_rule :: "dinode \<Rightarrow> int \<Rightarrow> string option" where
  "spec_reference_rule inode refcount =
     (if type inode \<noteq> 0 \<and> refcount = 0
      then Some ''inode marked use but not found in a directory.''
      else if refcount > 0 \<and> type inode = 0
      then Some ''inode referred to in directory but marked free.''
      else if type inode = INODE_FILE \<and> sint (nlink inode) \<noteq> refcount
      then Some ''bad reference count for file.''
      else if type inode = INODE_DIR \<and> refcount > 1
      then Some ''directory appears more than once in file system.''
      else None)"

text \<open>
  The good image with block 6, whose bitmap bit is clear, as the indirect block of the
  file inode 2.
\<close>

definition clear_image :: image where
  "clear_image = image_of_bytes ((1212, 6) # good_bytes)"

text \<open>
  The good image with block 6, whose bitmap bit is clear, in the first direct slot of
  the file inode 2, and the address 9, beyond the 8 blocks of the image, in its second.
\<close>

definition masked_image :: image where
  "masked_image = image_of_bytes ([(1164, 6), (1168, 9)] @ good_bytes)"

text \<open>The good image with the first byte of block 0 set to 6.\<close>

definition boot_image :: image where
  "boot_image = image_of_bytes ((0, 6) # good_bytes)"

text \<open>
  The good image with block 3, the bitmap block, in the second direct slot of the root
  inode. Block 3 is below the total block count 8 and its bitmap bit is set.
\<close>

definition low_image :: image where
  "low_image = image_of_bytes ((1104, 3) # good_bytes)"

text \<open>
  The store for a non-zero address \<open>a\<close> at index \<open>a - start\<close>, taken in
  \<open>unsigned int\<close>, falls outside an array of \<open>n\<close> elements.
\<close>

definition index_outside :: "nat \<Rightarrow> 32 word \<Rightarrow> 32 word \<Rightarrow> bool" where
  "index_outside n start a \<longleftrightarrow> a \<noteq> 0 \<and> int n \<le> uint (a - start)"

text \<open>
  Some store of \<open>get_active_data_blocks\<close> for the inode falls outside an array of
  \<open>n\<close> elements: the stores are made for the non-zero direct addresses, the non-zero
  indirect address and the non-zero entries of the indirect block.
\<close>

definition marks_outside :: "image \<Rightarrow> nat \<Rightarrow> 32 word \<Rightarrow> dinode \<Rightarrow> bool" where
  "marks_outside m n start inode \<longleftrightarrow>
     (\<exists>s \<le> NDIRECT. index_outside n start (addrs inode ! s)) \<or>
     (addrs inode ! NDIRECT \<noteq> 0 \<and>
      (\<exists>j < NINDIRECT. index_outside n start (indirect_at m (addrs inode ! NDIRECT) j)))"

text \<open>
  Some increment of \<open>tally_direct_block_usage\<close> or \<open>count_indirect_block_usage\<close> for
  the inode falls outside an array of \<open>n\<close> elements: the increments are made for the
  non-zero direct addresses and the non-zero entries of the indirect block.
\<close>

definition counts_outside :: "image \<Rightarrow> nat \<Rightarrow> 32 word \<Rightarrow> dinode \<Rightarrow> bool" where
  "counts_outside m n start inode \<longleftrightarrow>
     (\<exists>s < NDIRECT. index_outside n start (addrs inode ! s)) \<or>
     (addrs inode ! NDIRECT \<noteq> 0 \<and>
      (\<exists>j < NINDIRECT. index_outside n start (indirect_at m (addrs inode ! NDIRECT) j)))"

section \<open>The directory graph\<close>

text \<open>
  An entry the traversal counts: its inode number is not zero and its name is neither
  \<open>.\<close> nor \<open>..\<close>.
\<close>

definition counted :: "dirent \<Rightarrow> bool" where
  "counted dir \<longleftrightarrow>
     inum dir \<noteq> 0 \<and> \<not> strcmp_eq (name dir) ''.'' \<and> \<not> strcmp_eq (name dir) ''..''"

text \<open>The inode numbers of the counted entries of a block, in the order of the block.\<close>

definition block_children :: "image \<Rightarrow> 32 word \<Rightarrow> nat list" where
  "block_children m blockaddr =
     map (\<lambda>j. unat (inum (dirent_at m blockaddr j)))
       (filter (\<lambda>j. counted (dirent_at m blockaddr j)) [0..<entries_per_block])"

text \<open>
  The blocks of a directory the traversal reads: the non-zero direct addresses, then the
  non-zero entries of the indirect block if the indirect slot is not zero.
\<close>

definition directory_blocks :: "image \<Rightarrow> dinode \<Rightarrow> 32 word list" where
  "directory_blocks m inode =
     filter (\<lambda>b. b \<noteq> 0) (map (\<lambda>i. addrs inode ! i) [0..<NDIRECT]) @
     (if addrs inode ! NDIRECT \<noteq> 0
      then filter (\<lambda>b. b \<noteq> 0) (map (\<lambda>i. indirect_at m (addrs inode ! NDIRECT) i) [0..<NINDIRECT])
      else [])"

definition inode_children :: "image \<Rightarrow> dinode \<Rightarrow> nat list" where
  "inode_children m inode = concat (map (block_children m) (directory_blocks m inode))"

text \<open>
  The children of inode \<open>i\<close> in the directory graph restricted to the entries named
  neither \<open>.\<close> nor \<open>..\<close>: only a directory has any.
\<close>

definition children :: "image \<Rightarrow> nat \<Rightarrow> nat list" where
  "children m i =
     (if type (inode_at m i) = INODE_DIR then inode_children m (inode_at m i) else [])"

text \<open>
  The directory graph of an image with \<open>n\<close> inodes: an edge goes from every inode
  below the inode count to each of its children.
\<close>

definition edges :: "image \<Rightarrow> nat \<Rightarrow> (nat \<times> nat) set" where
  "edges m n = {(p, c). p < n \<and> c \<in> set (children m p)}"

text \<open>One counted entry: the counter of its inode is incremented and the inode is pushed.\<close>

definition push_child :: "nat \<Rightarrow> nat list \<times> int list \<Rightarrow> err + nat list \<times> int list" where
  "push_child c st =
     (case array_incr (snd st) (int c) of
        Inl e \<Rightarrow> Inl e
      | Inr inodemap' \<Rightarrow> Inr (c # fst st, inodemap'))"

text \<open>Inode \<open>x\<close> reaches a directory that lies on a cycle of the graph.\<close>

definition reaches_cycle :: "image \<Rightarrow> nat \<Rightarrow> nat \<Rightarrow> bool" where
  "reaches_cycle m n x \<longleftrightarrow>
     (\<exists>d. (x, d) \<in> (edges m n)\<^sup>* \<and> (d, d) \<in> (edges m n)\<^sup>+)"

text \<open>
  Inode \<open>x\<close> reaches a directory with a counted entry whose inode number is not below
  \<open>n\<close>.
\<close>

definition reaches_outside :: "image \<Rightarrow> nat \<Rightarrow> nat \<Rightarrow> bool" where
  "reaches_outside m n x \<longleftrightarrow>
     (\<exists>d c. (x, d) \<in> (edges m n)\<^sup>* \<and> (d, c) \<in> edges m n \<and> n \<le> c)"

text \<open>The good image with the entry \<open>a\<close> of the root directory naming inode 9.\<close>

definition wild_image :: image where
  "wild_image = image_of_bytes ((2080, 9) # good_bytes)"

text \<open>
  The good image with inode 2 turned into a directory: its block 5 holds the entries
  \<open>.\<close> (inode 2), \<open>..\<close> (inode 1) and \<open>b\<close> (inode 1), so that the root directory
  contains inode 2 and inode 2 contains the root directory.
\<close>

definition cyclic_image :: image where
  "cyclic_image = image_of_bytes
     ([(1152, 1), (2560, 2), (2562, 0x2E), (2576, 1), (2578, 0x2E), (2579, 0x2E),
       (2592, 1), (2594, 0x62)] @ good_bytes)"

text \<open>
  The good image with the block of the root directory named by the second direct slot of
  the root inode instead of the first, which is zero.
\<close>

definition second_slot_image :: image where
  "second_slot_image = image_of_bytes ([(1100, 0), (1104, 4)] @ good_bytes)"

text \<open>The good image with the entry \<open>..\<close> of the root directory naming inode 2.\<close>

definition parent_image :: image where
  "parent_image = image_of_bytes ((2064, 2) # good_bytes)"

text \<open>The good image with the type of inode 1 set to RegularFile.\<close>

definition file_root_image :: image where
  "file_root_image = image_of_bytes ((1088, 2) # good_bytes)"


text \<open>
  The good image with the entry \<open>..\<close> of the root directory naming inode 2 and with the
  type of inode 2 set to 7.
\<close>

definition root_first_image :: image where
  "root_first_image = image_of_bytes ([(2064, 2), (1152, 7)] @ good_bytes)"

section \<open>Occurrences of block addresses\<close>

text \<open>
  The direct-address occurrences over the in-use inodes of an image with \<open>n\<close> inodes:
  the non-zero addresses in the direct slots, inode by inode.
\<close>

definition direct_addresses :: "image \<Rightarrow> nat \<Rightarrow> 32 word list" where
  "direct_addresses m n =
     concat (map (\<lambda>k. if type (inode_at m k) = 0 then []
                       else filter (\<lambda>a. a \<noteq> 0)
                              (map (\<lambda>s. addrs (inode_at m k) ! s) [0..<NDIRECT]))
               [0..<n])"

text \<open>
  The indirect-address occurrences: the non-zero entries of the indirect blocks of the
  in-use inodes whose indirect slot is not zero.
\<close>

definition indirect_addresses :: "image \<Rightarrow> nat \<Rightarrow> 32 word list" where
  "indirect_addresses m n =
     concat (map (\<lambda>k. if type (inode_at m k) = 0 \<or> addrs (inode_at m k) ! NDIRECT = 0 then []
                       else filter (\<lambda>a. a \<noteq> 0)
                              (map (\<lambda>j. indirect_at m (addrs (inode_at m k) ! NDIRECT) j)
                                 [0..<NINDIRECT]))
               [0..<n])"

text \<open>
  The number of occurrences, in a list of addresses, of the block whose index from the
  start of the data region is \<open>b\<close>.
\<close>

definition occurrences :: "32 word \<Rightarrow> 32 word list \<Rightarrow> nat \<Rightarrow> nat" where
  "occurrences start as b = length (filter (\<lambda>a. uint (a - start) = int b) as)"

text \<open>
  The good image with block 6 in use as the indirect block of the file inode 2, whose
  only entry names block 5: block 5 is used once as a direct address and once inside an
  indirect block.
\<close>

definition once_each_image :: image where
  "once_each_image = image_of_bytes
     ([(1212, 6), (3072, 5), (1536, 0x7F)] @ good_bytes)"


section \<open>Properties of the loops\<close>

lemma for_each_Inr_iff: "for_each xs body = Inr u \<longleftrightarrow> (\<forall>i\<in>set xs. body i = Inr ())"
  by (induction xs) (auto split: sum.splits)

lemma for_each_InlD: "for_each xs body = Inl e \<Longrightarrow> \<exists>i\<in>set xs. body i = Inl e"
  by (induction xs) (auto split: sum.splits)

lemma for_each_upt_Inr_iff:
  "for_each [a..<n] body = Inr u \<longleftrightarrow> (\<forall>i. a \<le> i \<and> i < n \<longrightarrow> body i = Inr ())"
  by (auto simp: for_each_Inr_iff)

lemma for_each_upt_Inl_iff:
  "for_each [a..<n] body = Inl e \<longleftrightarrow>
     (\<exists>i. a \<le> i \<and> i < n \<and> body i = Inl e \<and> (\<forall>j. a \<le> j \<and> j < i \<longrightarrow> body j = Inr ()))"
proof (induction "n - a" arbitrary: a)
  case 0
  then show ?case by auto
next
  case (Suc d)
  then have lt: "a < n" and d: "d = n - Suc a" by arith+
  have unfold: "[a..<n] = a # [Suc a..<n]"
    using lt by (simp add: upt_conv_Cons)
  show ?case
  proof (cases "body a")
    case (Inl e')
    have "e = e'" if "a \<le> i" "body i = Inl e" "\<forall>j. a \<le> j \<and> j < i \<longrightarrow> body j = Inr ()" for i
    proof (cases "i = a")
      case True
      with that Inl show ?thesis by simp
    next
      case False
      with that have "body a = Inr ()" by simp
      with Inl show ?thesis by simp
    qed
    moreover have "\<exists>i. a \<le> i \<and> i < n \<and> body i = Inl e' \<and> (\<forall>j. a \<le> j \<and> j < i \<longrightarrow> body j = Inr ())"
      using Inl lt by (intro exI[of _ a]) auto
    ultimately show ?thesis
      using Inl by (auto simp: unfold)
  next
    case (Inr u)
    have "for_each [a..<n] body = Inl e \<longleftrightarrow> for_each [Suc a..<n] body = Inl e"
      using Inr by (simp add: unfold)
    also have "\<dots> \<longleftrightarrow> (\<exists>i. Suc a \<le> i \<and> i < n \<and> body i = Inl e \<and>
                        (\<forall>j. Suc a \<le> j \<and> j < i \<longrightarrow> body j = Inr ()))"
      by (rule Suc.hyps(1)[OF d])
    also have "\<dots> \<longleftrightarrow> (\<exists>i. a \<le> i \<and> i < n \<and> body i = Inl e \<and>
                        (\<forall>j. a \<le> j \<and> j < i \<longrightarrow> body j = Inr ()))"
      (is "?A \<longleftrightarrow> ?B")
    proof
      assume ?A
      then obtain i where i: "Suc a \<le> i" "i < n" "body i = Inl e"
        "\<forall>j. Suc a \<le> j \<and> j < i \<longrightarrow> body j = Inr ()" by blast
      have "body j = Inr ()" if "a \<le> j \<and> j < i" for j
        using that i(4) Inr by (cases "j = a") auto
      with i show ?B by (intro exI[of _ i]) auto
    next
      assume ?B
      then obtain i where i: "a \<le> i" "i < n" "body i = Inl e"
        "\<forall>j. a \<le> j \<and> j < i \<longrightarrow> body j = Inr ()" by blast
      with Inr have "i \<noteq> a" by auto
      with i show ?A by (intro exI[of _ i]) auto
    qed
    finally show ?thesis .
  qed
qed

section \<open>Properties of the messages\<close>

lemma error_line_inj [simp]: "error_line a = error_line b \<longleftrightarrow> a = b"
  by (simp add: error_line_def)

lemma exit_with_error_eq [simp]:
  "(exit_with_error a :: err + 'a) = exit_with_error b \<longleftrightarrow> a = b"
  "(exit_with_error a :: err + 'a) \<noteq> Inr x"
  "Inr x \<noteq> (exit_with_error a :: err + 'a)"
  "(exit_with_error a :: err + 'a) \<noteq> Inl OutOfBounds"
  "(exit_with_error a :: err + 'a) = Inl e \<longleftrightarrow> e = Exit (error_line a)"
  by (auto simp: exit_with_error_def)

lemma andthen_simps [simp]:
  "andthen (Inr u) b = b"
  "andthen (Inl e) b = Inl e"
  "andthen (exit_with_error a) b = exit_with_error a"
  by (simp_all add: andthen_def exit_with_error_def)

lemma andthen_Inr_iff: "andthen a b = Inr x \<longleftrightarrow> a = Inr () \<and> b = Inr x"
  by (cases a) (auto simp: andthen_def)

lemma andthen_Inl_iff: "andthen a b = Inl e \<longleftrightarrow> a = Inl e \<or> (a = Inr () \<and> b = Inl e)"
  by (cases a) (auto simp: andthen_def)

section \<open>What each check can report\<close>

lemma validate_inode_type_errors:
  "validate_inode_type inode = Inl e \<Longrightarrow> e = Exit (error_line ''bad inode.'')"
  by (auto simp: validate_inode_type_def Let_def split: if_splits)

lemma validate_block_addresses_errors:
  assumes "validate_block_addresses sb inode m = Inl e"
  shows "e = Exit (error_line ''bad direct address in inode.'') \<or>
         e = Exit (error_line ''bad indirect address in inode.'')"
  using assms
  by (auto simp: validate_block_addresses_def Let_def andthen_Inl_iff
           split: if_splits dest!: for_each_InlD)

lemma scan_block_errors:
  "scan_block m block_address inode_number js found = Inl e \<Longrightarrow>
     e = Exit (error_line ''directory not properly formatted'') \<or>
     e = Exit (error_line ''root directory does not exist.'')"
  by (induction m block_address inode_number js found rule: scan_block.induct)
     (auto simp: Let_def split: if_splits)

lemma scan_direct_errors:
  "scan_direct m inode inode_number ks found = Inl e \<Longrightarrow>
     e = Exit (error_line ''directory not properly formatted'') \<or>
     e = Exit (error_line ''root directory does not exist.'')"
  by (induction m inode inode_number ks found rule: scan_direct.induct)
     (auto simp: Let_def split: if_splits sum.splits dest: scan_block_errors)

lemma validate_directory_structure_errors:
  assumes "validate_directory_structure inode m inode_number = Inl e"
  shows "e = Exit (error_line ''directory not properly formatted'') \<or>
         e = Exit (error_line ''root directory does not exist.'') \<or>
         e = Exit (error_line ''directory not properly formatted.'')"
  using assms
  by (auto simp: validate_directory_structure_def split: sum.splits if_splits
           dest: scan_direct_errors)

lemma validate_bitmap_addr_errors:
  assumes "validate_bitmap_addr bitmapblocks inode m = Inl e"
  shows "e = Exit (error_line ''address used by inode but marked free in bitmap.'')"
  using assms
  by (auto simp: validate_bitmap_addr_def Let_def split: if_splits dest!: for_each_InlD)

section \<open>Properties of the counter arrays\<close>

lemma for_loop_invariant:
  assumes "for_loop xs body s = Inr s'" and "P s"
    and "\<And>i t t'. i \<in> set xs \<Longrightarrow> P t \<Longrightarrow> body i t = Inr t' \<Longrightarrow> P t'"
  shows "P s'"
  using assms
proof (induction xs arbitrary: s)
  case Nil
  then show ?case by simp
next
  case (Cons x xs)
  from Cons.prems(1) obtain t where t: "body x s = Inr t" "for_loop xs body t = Inr s'"
    by (auto split: sum.splits)
  have "P t" using Cons.prems(2,3) t(1) by auto
  then show ?case using Cons.IH[OF t(2)] Cons.prems(3) by auto
qed

lemma array_set_length: "array_set xs i v = Inr ys \<Longrightarrow> length ys = length xs"
  by (auto simp: array_set_def split: if_splits)

lemma array_incr_length: "array_incr xs i = Inr ys \<Longrightarrow> length ys = length xs"
  by (auto simp: array_incr_def split: if_splits)

lemma tally_direct_block_usage_length:
  assumes "tally_direct_block_usage inode xs start = Inr ys"
  shows "length ys = length xs"
  using assms unfolding tally_direct_block_usage_def
proof (rule for_loop_invariant[where P = "\<lambda>t. length t = length xs"])
  fix i t t'
  assume "length t = length xs"
    and "(let address = addrs inode ! i in if address = 0 then Inr t
          else array_incr t (uint (address - start))) = Inr t'"
  then show "length t' = length xs"
    by (auto simp: Let_def split: if_splits dest: array_incr_length)
qed simp

lemma count_indirect_block_usage_length:
  assumes "count_indirect_block_usage inode xs m start = Inr ys"
  shows "length ys = length xs"
proof (cases "addrs inode ! NDIRECT = 0")
  case True
  with assms show ?thesis by (simp add: count_indirect_block_usage_def)
next
  case False
  with assms have "for_loop [0..<NINDIRECT] (\<lambda>idx usage.
                let current_address = indirect_at m (addrs inode ! NDIRECT) idx
                in if current_address \<noteq> 0
                   then array_incr usage (uint (current_address - start))
                   else Inr usage) xs = Inr ys"
    by (simp add: count_indirect_block_usage_def)
  then show ?thesis
  proof (rule for_loop_invariant[where P = "\<lambda>t. length t = length xs"])
    fix i t t'
    assume "length t = length xs"
      and "(let current_address = indirect_at m (addrs inode ! NDIRECT) i
            in if current_address \<noteq> 0
               then array_incr t (uint (current_address - start))
               else Inr t) = Inr t'"
    then show "length t' = length xs"
      by (auto simp: Let_def split: if_splits dest: array_incr_length)
  qed simp
qed

lemma accumulate_usage_length:
  assumes "accumulate_usage m sb start = Inr (d, i)"
  shows "length d = unat (nblocks sb) \<and> length i = unat (nblocks sb)"
proof -
  let ?P = "\<lambda>t. length (fst t) = unat (nblocks sb) \<and> length (snd t) = unat (nblocks sb)"
  have "?P (d, i)"
    using assms unfolding accumulate_usage_def
  proof (rule for_loop_invariant[where P = ?P])
    fix k and t t' :: "32 word list \<times> 32 word list"
    assume "?P t"
      and "(case t of (direct_usage_counts, indirect_usage_counts) \<Rightarrow>
             let current_inode = inode_at m k
             in if type current_inode = 0 then Inr (direct_usage_counts, indirect_usage_counts)
                else (case tally_direct_block_usage current_inode direct_usage_counts start of
                        Inl e \<Rightarrow> Inl e
                      | Inr direct' \<Rightarrow>
                          (case count_indirect_block_usage current_inode indirect_usage_counts m start of
                             Inl e \<Rightarrow> Inl e
                           | Inr indirect' \<Rightarrow> Inr (direct', indirect')))) = Inr t'"
    then show "?P t'"
      by (cases t)
         (auto simp: Let_def split: if_splits sum.splits
               dest: tally_direct_block_usage_length count_indirect_block_usage_length)
  qed simp
  then show ?thesis by simp
qed

lemma check_usage_counts_Inl_iff:
  "check_usage_counts n d i = Inl e \<longleftrightarrow>
     (\<exists>b < n. (\<forall>c < b. d ! c \<le> 1 \<and> i ! c \<le> 1) \<and>
        (if d ! b > 1 then e = Exit (error_line ''direct address used more than once.'')
         else i ! b > 1 \<and> e = Exit (error_line ''indirect address used more than once.'')))"
proof -
  have body: "(if 1 < d ! c then exit_with_error ''direct address used more than once.''
             else if 1 < i ! c then exit_with_error ''indirect address used more than once.''
             else Inr ()) = Inr () \<longleftrightarrow> d ! c \<le> 1 \<and> i ! c \<le> 1" for c
    by (auto simp: not_less)
  show ?thesis
    unfolding check_usage_counts_def for_each_upt_Inl_iff body
    by (auto simp: not_less split: if_splits)
qed

lemma check_usage_counts_Inr_iff:
  "check_usage_counts n d i = Inr u \<longleftrightarrow> (\<forall>b < n. d ! b \<le> 1 \<and> i ! b \<le> 1)"
  unfolding check_usage_counts_def for_each_upt_Inr_iff
  by (auto simp: not_less split: if_splits)

section \<open>Properties of the reference rules\<close>

lemma check_references_body:
  "(let curr_inode = inode_at m k
       in if type curr_inode \<noteq> 0 \<and> refs ! k = 0
          then exit_with_error ''inode marked use but not found in a directory.''
          else if refs ! k > 0 \<and> type curr_inode = 0
          then exit_with_error ''inode referred to in directory but marked free.''
          else if type curr_inode = INODE_FILE \<and> sint (nlink curr_inode) \<noteq> refs ! k
          then exit_with_error ''bad reference count for file.''
          else if type curr_inode = INODE_DIR \<and> refs ! k > 1
          then exit_with_error ''directory appears more than once in file system.''
          else Inr ()) =
   (case spec_reference_rule (inode_at m k) (refs ! k) of
      None \<Rightarrow> Inr () | Some msg \<Rightarrow> exit_with_error msg)"
  by (auto simp: spec_reference_rule_def Let_def)

lemma check_references_spec:
  "check_references m n refs =
     for_each [2..<n] (\<lambda>k. case spec_reference_rule (inode_at m k) (refs ! k) of
                              None \<Rightarrow> Inr () | Some msg \<Rightarrow> exit_with_error msg)"
  unfolding check_references_def check_references_body ..

lemma validate_directory_rules_seeded:
  assumes "2 \<le> unat (ninodes sb)"
  shows "validate_directory_rules m sb =
     (case scan_directory_entries m 1 ((replicate (unat (ninodes sb)) 0)[0 := 1, 1 := 1]) of
        None \<Rightarrow> None
      | Some (Inl e) \<Rightarrow> Some (Inl e)
      | Some (Inr refs) \<Rightarrow> Some (check_references m (unat (ninodes sb)) refs))"
proof -
  have "1 < uint (ninodes sb)"
    using assms unfolding unat_eq_nat_uint by linarith
  moreover have "replicate (unat (ninodes sb)) (0::int) ! 0 = 0"
    "replicate (unat (ninodes sb)) (0::int) ! Suc 0 = 0"
    using assms by simp_all
  ultimately show ?thesis
    by (simp add: validate_directory_rules_def array_incr_def)
qed

section \<open>Properties of the passes\<close>

lemma for_loop_InlD:
  "for_loop xs body s = Inl e \<Longrightarrow> \<exists>i\<in>set xs. \<exists>t. body i t = Inl e"
  by (induction xs arbitrary: s) (auto split: sum.splits)

lemma array_set_errors: "array_set xs i v = Inl e \<Longrightarrow> e = OutOfBounds"
  by (auto simp: array_set_def split: if_splits)

lemma array_incr_errors: "array_incr xs i = Inl e \<Longrightarrow> e = OutOfBounds"
  by (auto simp: array_incr_def split: if_splits)

lemma get_active_data_blocks_errors:
  "get_active_data_blocks inode used m start = Inl e \<Longrightarrow> e = OutOfBounds"
  unfolding get_active_data_blocks_def
  by (auto simp: Let_def array_set_def split: if_splits sum.splits dest!: for_loop_InlD)

lemma verify_bitmap_usage_errors:
  assumes "verify_bitmap_usage bitmapblocks m sb start = Inl e"
  shows "e = OutOfBounds \<or>
         e = Exit (error_line ''bitmap marks block in use but it is not in use.'')"
  using assms unfolding verify_bitmap_usage_def
  by (auto simp: Let_def split: if_splits sum.splits
           dest!: for_loop_InlD for_each_InlD dest: get_active_data_blocks_errors)

lemma tally_direct_block_usage_errors:
  "tally_direct_block_usage inode xs start = Inl e \<Longrightarrow> e = OutOfBounds"
  unfolding tally_direct_block_usage_def
  by (auto simp: Let_def split: if_splits dest!: for_loop_InlD array_incr_errors)

lemma count_indirect_block_usage_errors:
  "count_indirect_block_usage inode xs m start = Inl e \<Longrightarrow> e = OutOfBounds"
  unfolding count_indirect_block_usage_def
  by (auto simp: Let_def split: if_splits dest!: for_loop_InlD array_incr_errors)

lemma accumulate_usage_errors:
  "accumulate_usage m sb start = Inl e \<Longrightarrow> e = OutOfBounds"
  unfolding accumulate_usage_def
  by (auto simp: Let_def split: if_splits sum.splits prod.splits
           dest!: for_loop_InlD
           dest: tally_direct_block_usage_errors count_indirect_block_usage_errors)

lemma validate_block_address_uniqueness_errors:
  assumes "validate_block_address_uniqueness m sb start = Inl e"
  shows "e = OutOfBounds \<or>
         e = Exit (error_line ''direct address used more than once.'') \<or>
         e = Exit (error_line ''indirect address used more than once.'')"
  using assms unfolding validate_block_address_uniqueness_def
  by (auto simp: check_usage_counts_Inl_iff split: sum.splits prod.splits if_splits
           dest: accumulate_usage_errors)

lemma count_block_entries_errors:
  "count_block_entries m blockaddr st = Inl e \<Longrightarrow> e = OutOfBounds"
  unfolding count_block_entries_def
  by (auto simp: Let_def split: if_splits sum.splits prod.splits
           dest!: for_loop_InlD array_incr_errors)

lemma scan_directory_errors:
  "scan_directory m current st = Inl e \<Longrightarrow> e = OutOfBounds"
  unfolding scan_directory_def
  by (auto simp: Let_def split: if_splits sum.splits
           dest!: for_loop_InlD dest: count_block_entries_errors)

lemma scan_loop_errors:
  "scan_loop m stack inodemap = Some (Inl e) \<Longrightarrow> e = OutOfBounds"
proof -
  have "scan_loop m stack inodemap = Some y \<Longrightarrow> \<forall>e. y = Inl e \<longrightarrow> e = OutOfBounds" for y
    by (rule scan_loop.raw_induct[where P = "\<lambda>m stack inodemap y. \<forall>e. y = Inl e \<longrightarrow> e = OutOfBounds"])
       (auto split: list.splits if_splits sum.splits prod.splits dest: scan_directory_errors)
  then show "scan_loop m stack inodemap = Some (Inl e) \<Longrightarrow> e = OutOfBounds"
    by blast
qed

lemma check_references_errors:
  assumes "check_references m n refs = Inl e"
  shows "e = Exit (error_line ''inode marked use but not found in a directory.'') \<or>
         e = Exit (error_line ''inode referred to in directory but marked free.'') \<or>
         e = Exit (error_line ''bad reference count for file.'') \<or>
         e = Exit (error_line ''directory appears more than once in file system.'')"
  using assms unfolding check_references_def
  by (auto simp: Let_def split: if_splits dest!: for_each_InlD)

lemma validate_directory_rules_errors:
  assumes "validate_directory_rules m sb = Some (Inl e)"
  shows "e = OutOfBounds \<or>
         e = Exit (error_line ''inode marked use but not found in a directory.'') \<or>
         e = Exit (error_line ''inode referred to in directory but marked free.'') \<or>
         e = Exit (error_line ''bad reference count for file.'') \<or>
         e = Exit (error_line ''directory appears more than once in file system.'')"
  using assms unfolding validate_directory_rules_def scan_directory_entries_def
  by (auto split: sum.splits option.splits
           dest: array_incr_errors scan_loop_errors check_references_errors)

section \<open>Properties of the bitmap check\<close>

lemma validate_bitmap_addr_cases:
  "validate_bitmap_addr bitmapblocks inode m = Inr () \<or>
   validate_bitmap_addr bitmapblocks inode m =
     exit_with_error ''address used by inode but marked free in bitmap.''"
  by (cases "validate_bitmap_addr bitmapblocks inode m")
     (auto dest: validate_bitmap_addr_errors simp: exit_with_error_def)

lemma validate_bitmap_addr_Inr_iff:
  "validate_bitmap_addr bitmapblocks inode m = Inr () \<longleftrightarrow>
     (\<forall>s \<le> NDIRECT. addrs inode ! s = 0 \<or> is_bit_set m bitmapblocks (addrs inode ! s)) \<and>
     (\<forall>j < NINDIRECT. indirect_at m (addrs inode ! NDIRECT) j = 0 \<or>
         is_bit_set m bitmapblocks (indirect_at m (addrs inode ! NDIRECT) j))"
  unfolding validate_bitmap_addr_def for_each_upt_Inr_iff Let_def
  by (auto simp: for_each_upt_Inr_iff less_Suc_eq_le split: if_splits)

lemma validate_bitmap_addr_iff:
  "validate_bitmap_addr bitmapblocks inode m =
     exit_with_error ''address used by inode but marked free in bitmap.'' \<longleftrightarrow>
     (\<exists>s \<le> NDIRECT. addrs inode ! s \<noteq> 0 \<and> \<not> is_bit_set m bitmapblocks (addrs inode ! s)) \<or>
     (\<exists>j < NINDIRECT. indirect_at m (addrs inode ! NDIRECT) j \<noteq> 0 \<and>
         \<not> is_bit_set m bitmapblocks (indirect_at m (addrs inode ! NDIRECT) j))"
  using validate_bitmap_addr_cases[of bitmapblocks inode m]
    validate_bitmap_addr_Inr_iff[of bitmapblocks inode m]
  by auto

lemma validate_inode_bitmap_iff:
  "validate_inode bitmapblocks m sb k =
       exit_with_error ''address used by inode but marked free in bitmap.'' \<longleftrightarrow>
     type (inode_at m k) \<noteq> 0 \<and>
     validate_inode_type (inode_at m k) = Inr () \<and>
     validate_block_addresses sb (inode_at m k) m = Inr () \<and>
     (k = 1 \<longrightarrow> type (inode_at m k) = INODE_DIR) \<and>
     (type (inode_at m k) = INODE_DIR \<longrightarrow>
        validate_directory_structure (inode_at m k) m k = Inr ()) \<and>
     validate_bitmap_addr bitmapblocks (inode_at m k) m =
       exit_with_error ''address used by inode but marked free in bitmap.''"
  unfolding exit_with_error_def validate_inode_def Let_def
  by (auto simp: andthen_Inl_iff exit_with_error_def
           dest!: validate_inode_type_errors validate_block_addresses_errors
                  validate_directory_structure_errors)

lemma fcheck_bitmap_iff:
  "fcheck m = Some (exit_with_error ''address used by inode but marked free in bitmap.'') \<longleftrightarrow>
     validate_inodes (bitmapblocks_of (read_superblock m (1 * BSIZE))) m
        (read_superblock m (1 * BSIZE)) =
       exit_with_error ''address used by inode but marked free in bitmap.''"
  unfolding fcheck_def Let_def exit_with_error_def
  by (auto split: sum.splits
           dest!: verify_bitmap_usage_errors validate_block_address_uniqueness_errors
                  validate_directory_rules_errors)

section \<open>Properties of the array stores\<close>

lemma for_loop_fault_iff:
  assumes "I s"
    and "\<And>i t e. i \<in> set xs \<Longrightarrow> I t \<Longrightarrow> body i t = Inl e \<longleftrightarrow> e = OutOfBounds \<and> F i"
    and "\<And>i t t'. i \<in> set xs \<Longrightarrow> I t \<Longrightarrow> body i t = Inr t' \<Longrightarrow> I t'"
  shows "for_loop xs body s = Inl e \<longleftrightarrow> e = OutOfBounds \<and> (\<exists>i\<in>set xs. F i)"
  using assms
proof (induction xs arbitrary: s)
  case Nil
  then show ?case by simp
next
  case (Cons x xs)
  show ?case
  proof (cases "body x s")
    case (Inl e')
    with Cons.prems(2)[of x s e'] Cons.prems(1) have "e' = OutOfBounds" "F x" by auto
    with Inl show ?thesis by auto
  next
    case (Inr t)
    with Cons.prems(3)[of x s t] Cons.prems(1) have t: "I t" by simp
    have nf: "\<not> F x"
      using Cons.prems(2)[of x s OutOfBounds] Cons.prems(1) Inr by auto
    have "for_loop xs body t = Inl e \<longleftrightarrow> e = OutOfBounds \<and> (\<exists>i\<in>set xs. F i)"
    proof (rule Cons.IH[OF t])
      fix i u e
      assume "i \<in> set xs" "I u"
      then show "body i u = Inl e \<longleftrightarrow> e = OutOfBounds \<and> F i"
        using Cons.prems(2)[of i u e] by simp
    next
      fix i u u'
      assume "i \<in> set xs" "I u" "body i u = Inr u'"
      then show "I u'"
        using Cons.prems(3)[of i u u'] by simp
    qed
    with Inr nf show ?thesis by auto
  qed
qed

lemma array_set_Inl_iff:
  "array_set xs (uint (a - start)) v = Inl e \<longleftrightarrow>
     e = OutOfBounds \<and> int (length xs) \<le> uint (a - start)"
  by (auto simp: array_set_def)

lemma array_incr_Inl_iff:
  "array_incr xs (uint (a - start)) = Inl e \<longleftrightarrow>
     e = OutOfBounds \<and> int (length xs) \<le> uint (a - start)"
  by (auto simp: array_incr_def)

lemma get_active_data_blocks_length:
  assumes "get_active_data_blocks inode used m start = Inr used'"
  shows "length used' = length used"
  using assms unfolding get_active_data_blocks_def
proof (rule for_loop_invariant[where P = "\<lambda>t. length t = length used"])
  fix i and t t' :: "int list"
  assume len: "length t = length used"
    and step: "(let address = addrs inode ! i
       in if address = 0 then Inr t
          else case array_set t (uint (address - start)) 1 of
                 Inl e \<Rightarrow> Inl e
               | Inr used' \<Rightarrow>
                   if i = NDIRECT
                   then for_loop [0..<NINDIRECT] (\<lambda>indirect_idx u.
                          let indirect_address = indirect_at m address indirect_idx
                          in if indirect_address \<noteq> 0
                             then array_set u (uint (indirect_address - start)) 1
                             else Inr u) used'
                   else Inr used') = Inr t'"
  show "length t' = length used"
  proof (cases "addrs inode ! i = 0")
    case True
    with step len show ?thesis by simp
  next
    case False
    with step obtain u where u: "array_set t (uint (addrs inode ! i - start)) 1 = Inr u"
      by (auto simp: Let_def split: sum.splits)
    then have lu: "length u = length used" using len by (auto dest: array_set_length)
    show ?thesis
    proof (cases "i = NDIRECT")
      case True
      with step False u have "for_loop [0..<NINDIRECT] (\<lambda>indirect_idx u.
                          let indirect_address = indirect_at m (addrs inode ! i) indirect_idx
                          in if indirect_address \<noteq> 0
                             then array_set u (uint (indirect_address - start)) 1
                             else Inr u) u = Inr t'"
        by (simp add: Let_def)
      then show ?thesis
        by (rule for_loop_invariant[where P = "\<lambda>t. length t = length used"])
           (auto simp: lu Let_def split: if_splits dest: array_set_length)
    next
      case False
      with step \<open>addrs inode ! i \<noteq> 0\<close> u lu show ?thesis by (simp add: Let_def)
    qed
  qed
qed simp

lemma indirect_stores_Inl_iff:
  "for_loop [0..<NINDIRECT] (\<lambda>indirect_idx u.
      let indirect_address = indirect_at m address indirect_idx
      in if indirect_address \<noteq> 0
         then array_set u (uint (indirect_address - start)) 1
         else Inr u) (used :: int list) = Inl e \<longleftrightarrow>
   e = OutOfBounds \<and>
   (\<exists>j < NINDIRECT. index_outside (length used) start (indirect_at m address j))"
proof -
  have "for_loop [0..<NINDIRECT] (\<lambda>indirect_idx u.
      let indirect_address = indirect_at m address indirect_idx
      in if indirect_address \<noteq> 0
         then array_set u (uint (indirect_address - start)) 1
         else Inr u) used = Inl e \<longleftrightarrow>
   e = OutOfBounds \<and>
   (\<exists>j \<in> set [0..<NINDIRECT]. index_outside (length used) start (indirect_at m address j))"
    by (rule for_loop_fault_iff[where I = "\<lambda>t. length t = length used"])
       (auto simp: Let_def index_outside_def array_set_Inl_iff split: if_splits
             dest: array_set_length)
  then show ?thesis by auto
qed

lemma get_active_data_blocks_Inl_iff:
  "get_active_data_blocks inode used m start = Inl e \<longleftrightarrow>
     e = OutOfBounds \<and>
     ((\<exists>s \<le> NDIRECT. index_outside (length used) start (addrs inode ! s)) \<or>
      (addrs inode ! NDIRECT \<noteq> 0 \<and>
       (\<exists>j < NINDIRECT. index_outside (length used) start
                           (indirect_at m (addrs inode ! NDIRECT) j))))"
proof -
  let ?F = "\<lambda>s. index_outside (length used) start (addrs inode ! s) \<or>
                 (s = NDIRECT \<and> addrs inode ! NDIRECT \<noteq> 0 \<and>
                  (\<exists>j < NINDIRECT. index_outside (length used) start
                           (indirect_at m (addrs inode ! NDIRECT) j)))"
  have "get_active_data_blocks inode used m start = Inl e \<longleftrightarrow>
          e = OutOfBounds \<and> (\<exists>s \<in> set [0..<NDIRECT + 1]. ?F s)"
    unfolding get_active_data_blocks_def
  proof (rule for_loop_fault_iff[where I = "\<lambda>t. length t = length used"])
    fix i and t :: "int list" and e
    assume len: "length t = length used"
    show "(let address = addrs inode ! i
       in if address = 0 then Inr t
          else case array_set t (uint (address - start)) 1 of
                 Inl e \<Rightarrow> Inl e
               | Inr used' \<Rightarrow>
                   if i = NDIRECT
                   then for_loop [0..<NINDIRECT] (\<lambda>indirect_idx u.
                          let indirect_address = indirect_at m address indirect_idx
                          in if indirect_address \<noteq> 0
                             then array_set u (uint (indirect_address - start)) 1
                             else Inr u) used'
                   else Inr used') = Inl e \<longleftrightarrow> e = OutOfBounds \<and> ?F i"
    proof (cases "array_set t (uint (addrs inode ! i - start)) 1")
      case (Inl e')
      then have "e' = OutOfBounds" "int (length used) \<le> uint (addrs inode ! i - start)"
        using len by (auto simp: array_set_Inl_iff)
      then show ?thesis
        by (auto simp: Let_def index_outside_def Inl)
    next
      case (Inr u)
      then have lu: "length u = length used" and inb: "\<not> int (length used) \<le> uint (addrs inode ! i - start)"
        using len by (auto simp: array_set_def split: if_splits)
      show ?thesis
        using Inr inb
        by (auto simp: Let_def[of "addrs inode ! i"] index_outside_def
                       indirect_stores_Inl_iff lu)
    qed
  next
    fix i and t t' :: "int list"
    assume "length t = length used"
      and "(let address = addrs inode ! i
       in if address = 0 then Inr t
          else case array_set t (uint (address - start)) 1 of
                 Inl e \<Rightarrow> Inl e
               | Inr used' \<Rightarrow>
                   if i = NDIRECT
                   then for_loop [0..<NINDIRECT] (\<lambda>indirect_idx u.
                          let indirect_address = indirect_at m address indirect_idx
                          in if indirect_address \<noteq> 0
                             then array_set u (uint (indirect_address - start)) 1
                             else Inr u) used'
                   else Inr used') = Inr t'"
    then show "length t' = length used"
      by (auto simp: Let_def split: if_splits sum.splits
               dest!: array_set_length
               elim!: for_loop_invariant[where P = "\<lambda>t. length t = length used"])
  qed simp
  also have "(\<exists>s \<in> set [0..<NDIRECT + 1]. ?F s) \<longleftrightarrow>
     ((\<exists>s \<le> NDIRECT. index_outside (length used) start (addrs inode ! s)) \<or>
      (addrs inode ! NDIRECT \<noteq> 0 \<and>
       (\<exists>j < NINDIRECT. index_outside (length used) start
                           (indirect_at m (addrs inode ! NDIRECT) j))))"
  proof -
    have "set [0..<NDIRECT + 1] = {s. s \<le> NDIRECT}" by auto
    then show ?thesis by (simp only: Bex_def mem_Collect_eq) blast
  qed
  finally show ?thesis .
qed

lemma get_active_data_blocks_marks:
  "get_active_data_blocks inode used m start = Inl e \<longleftrightarrow>
     e = OutOfBounds \<and> marks_outside m (length used) start inode"
  unfolding get_active_data_blocks_Inl_iff marks_outside_def ..

lemma mark_loop_Inl_iff:
  "for_loop [0..<n] (\<lambda>inode_idx blocks_in_use.
             let current_inode = inode_at m inode_idx
             in if type current_inode = 0 then Inr blocks_in_use
                else get_active_data_blocks current_inode blocks_in_use m start)
           (replicate nb 0) = Inl e \<longleftrightarrow>
   e = OutOfBounds \<and>
   (\<exists>k < n. type (inode_at m k) \<noteq> 0 \<and> marks_outside m nb start (inode_at m k))"
proof -
  have "for_loop [0..<n] (\<lambda>inode_idx blocks_in_use.
             let current_inode = inode_at m inode_idx
             in if type current_inode = 0 then Inr blocks_in_use
                else get_active_data_blocks current_inode blocks_in_use m start)
           (replicate nb 0) = Inl e \<longleftrightarrow>
   e = OutOfBounds \<and>
   (\<exists>k \<in> set [0..<n]. type (inode_at m k) \<noteq> 0 \<and> marks_outside m nb start (inode_at m k))"
    by (rule for_loop_fault_iff[where I = "\<lambda>t. length t = nb"])
       (auto simp: Let_def get_active_data_blocks_marks split: if_splits
             dest: get_active_data_blocks_length)
  then show ?thesis by auto
qed

lemma verify_bitmap_usage_fault_iff:
  "verify_bitmap_usage bitmapblocks m sb start = Inl OutOfBounds \<longleftrightarrow>
     (\<exists>k < unat (ninodes sb). type (inode_at m k) \<noteq> 0 \<and>
        marks_outside m (unat (nblocks sb)) start (inode_at m k))"
proof (cases "for_loop [0..<unat (ninodes sb)] (\<lambda>inode_idx blocks_in_use.
             let current_inode = inode_at m inode_idx
             in if type current_inode = 0 then Inr blocks_in_use
                else get_active_data_blocks current_inode blocks_in_use m start)
           (replicate (unat (nblocks sb)) 0)")
  case (Inl e)
  then show ?thesis
    using Inl[unfolded mark_loop_Inl_iff]
    by (simp add: verify_bitmap_usage_def)
next
  case (Inr used)
  have "\<not> (\<exists>k < unat (ninodes sb). type (inode_at m k) \<noteq> 0 \<and>
        marks_outside m (unat (nblocks sb)) start (inode_at m k))"
    using mark_loop_Inl_iff[of "unat (ninodes sb)" m start "unat (nblocks sb)" OutOfBounds] Inr
    by simp
  moreover have "verify_bitmap_usage bitmapblocks m sb start \<noteq> Inl OutOfBounds"
    unfolding verify_bitmap_usage_def Inr
    by (auto simp: Let_def exit_with_error_def split: if_splits dest!: for_each_InlD)
  ultimately show ?thesis by simp
qed

lemma tally_direct_block_usage_Inl_iff:
  "tally_direct_block_usage inode xs start = Inl e \<longleftrightarrow>
     e = OutOfBounds \<and> (\<exists>s < NDIRECT. index_outside (length xs) start (addrs inode ! s))"
proof -
  have "tally_direct_block_usage inode xs start = Inl e \<longleftrightarrow>
     e = OutOfBounds \<and> (\<exists>s \<in> set [0..<NDIRECT]. index_outside (length xs) start (addrs inode ! s))"
    unfolding tally_direct_block_usage_def
    by (rule for_loop_fault_iff[where I = "\<lambda>t. length t = length xs"])
       (auto simp: Let_def index_outside_def array_incr_Inl_iff split: if_splits
             dest: array_incr_length)
  then show ?thesis by auto
qed

lemma count_indirect_block_usage_Inl_iff:
  "count_indirect_block_usage inode xs m start = Inl e \<longleftrightarrow>
     e = OutOfBounds \<and> addrs inode ! NDIRECT \<noteq> 0 \<and>
     (\<exists>j < NINDIRECT. index_outside (length xs) start (indirect_at m (addrs inode ! NDIRECT) j))"
proof (cases "addrs inode ! NDIRECT = 0")
  case True
  then show ?thesis by (simp add: count_indirect_block_usage_def)
next
  case False
  have "for_loop [0..<NINDIRECT] (\<lambda>idx usage.
                let current_address = indirect_at m (addrs inode ! NDIRECT) idx
                in if current_address \<noteq> 0
                   then array_incr usage (uint (current_address - start))
                   else Inr usage) xs = Inl e \<longleftrightarrow>
     e = OutOfBounds \<and>
     (\<exists>j \<in> set [0..<NINDIRECT]. index_outside (length xs) start (indirect_at m (addrs inode ! NDIRECT) j))"
    by (rule for_loop_fault_iff[where I = "\<lambda>t. length t = length xs"])
       (auto simp: Let_def index_outside_def array_incr_Inl_iff split: if_splits
             dest: array_incr_length)
  with False show ?thesis by (auto simp: count_indirect_block_usage_def)
qed

lemma tally_direct_block_usage_InrD:
  assumes "tally_direct_block_usage inode xs start = Inr ys"
  shows "\<not> (\<exists>s < NDIRECT. index_outside (length xs) start (addrs inode ! s))"
  using tally_direct_block_usage_Inl_iff[of inode xs start OutOfBounds] assms by simp

lemma count_indirect_block_usage_InrD:
  assumes "count_indirect_block_usage inode xs m start = Inr ys"
    and "addrs inode ! NDIRECT \<noteq> 0" and "j < NINDIRECT"
    and "index_outside (length xs) start (indirect_at m (addrs inode ! NDIRECT) j)"
  shows False
  using count_indirect_block_usage_Inl_iff[of inode xs m start OutOfBounds] assms by auto

lemma accumulate_usage_Inl_iff:
  "accumulate_usage m sb start = Inl e \<longleftrightarrow>
     e = OutOfBounds \<and>
     (\<exists>k < unat (ninodes sb). type (inode_at m k) \<noteq> 0 \<and>
        counts_outside m (unat (nblocks sb)) start (inode_at m k))"
proof -
  let ?I = "\<lambda>t :: 32 word list \<times> 32 word list.
              length (fst t) = unat (nblocks sb) \<and> length (snd t) = unat (nblocks sb)"
  have "accumulate_usage m sb start = Inl e \<longleftrightarrow>
     e = OutOfBounds \<and>
     (\<exists>k \<in> set [0..<unat (ninodes sb)]. type (inode_at m k) \<noteq> 0 \<and>
        counts_outside m (unat (nblocks sb)) start (inode_at m k))"
    unfolding accumulate_usage_def
  proof (rule for_loop_fault_iff[where I = ?I])
    fix k and t :: "32 word list \<times> 32 word list" and e
    assume "?I t"
    then show "(case t of (direct_usage_counts, indirect_usage_counts) \<Rightarrow>
             let current_inode = inode_at m k
             in if type current_inode = 0 then Inr (direct_usage_counts, indirect_usage_counts)
                else (case tally_direct_block_usage current_inode direct_usage_counts start of
                        Inl e \<Rightarrow> Inl e
                      | Inr direct' \<Rightarrow>
                          (case count_indirect_block_usage current_inode indirect_usage_counts m start of
                             Inl e \<Rightarrow> Inl e
                           | Inr indirect' \<Rightarrow> Inr (direct', indirect')))) = Inl e \<longleftrightarrow>
          e = OutOfBounds \<and> (type (inode_at m k) \<noteq> 0 \<and>
             counts_outside m (unat (nblocks sb)) start (inode_at m k))"
      by (cases t; cases "tally_direct_block_usage (inode_at m k) (fst t) start")
         (auto simp: Let_def counts_outside_def tally_direct_block_usage_Inl_iff
                     count_indirect_block_usage_Inl_iff
               split: sum.splits
               dest: tally_direct_block_usage_InrD count_indirect_block_usage_InrD)
  next
    fix k and t t' :: "32 word list \<times> 32 word list"
    assume "?I t"
      and "(case t of (direct_usage_counts, indirect_usage_counts) \<Rightarrow>
             let current_inode = inode_at m k
             in if type current_inode = 0 then Inr (direct_usage_counts, indirect_usage_counts)
                else (case tally_direct_block_usage current_inode direct_usage_counts start of
                        Inl e \<Rightarrow> Inl e
                      | Inr direct' \<Rightarrow>
                          (case count_indirect_block_usage current_inode indirect_usage_counts m start of
                             Inl e \<Rightarrow> Inl e
                           | Inr indirect' \<Rightarrow> Inr (direct', indirect')))) = Inr t'"
    then show "?I t'"
      by (cases t)
         (auto simp: Let_def split: if_splits sum.splits
               dest: tally_direct_block_usage_length count_indirect_block_usage_length)
  qed simp
  then show ?thesis by auto
qed

lemma validate_block_address_uniqueness_fault_iff:
  "validate_block_address_uniqueness m sb start = Inl OutOfBounds \<longleftrightarrow>
     (\<exists>k < unat (ninodes sb). type (inode_at m k) \<noteq> 0 \<and>
        counts_outside m (unat (nblocks sb)) start (inode_at m k))"
proof (cases "accumulate_usage m sb start")
  case (Inl e)
  then show ?thesis
    using Inl[unfolded accumulate_usage_Inl_iff]
    by (simp add: validate_block_address_uniqueness_def)
next
  case (Inr p)
  have "\<not> (\<exists>k < unat (ninodes sb). type (inode_at m k) \<noteq> 0 \<and>
        counts_outside m (unat (nblocks sb)) start (inode_at m k))"
    using accumulate_usage_Inl_iff[of m sb start OutOfBounds] Inr by simp
  moreover have "validate_block_address_uniqueness m sb start \<noteq> Inl OutOfBounds"
    unfolding validate_block_address_uniqueness_def Inr
    by (cases p) (auto simp: check_usage_counts_Inl_iff split: if_splits)
  ultimately show ?thesis by simp
qed

lemma index_inside_iff:
  fixes a start nb :: "32 word"
  assumes "uint start + uint nb < 2 ^ 32"
  shows "uint (a - start) < uint nb \<longleftrightarrow> start \<le> a \<and> a < start + nb"
proof -
  have s: "uint (start + nb) = uint start + uint nb"
    using assms uint_add_lem[of start nb] by simp
  have d: "uint (a - start) =
             (if uint start \<le> uint a then uint a - uint start
              else uint a - uint start + 2 ^ 32)"
    by (simp add: uint_sub_if' word_size)
  show ?thesis
  proof (cases "uint start \<le> uint a")
    case True
    then show ?thesis
      unfolding word_le_def word_less_def s d by auto
  next
    case False
    have "0 \<le> uint a" by simp
    with assms have "\<not> uint a - uint start + 2 ^ 32 < uint nb" by linarith
    with False show ?thesis
      unfolding word_le_def word_less_def s d by simp
  qed
qed

section \<open>Properties of the traversal\<close>

lemma for_loop_append:
  "for_loop (xs @ ys) body s =
     (case for_loop xs body s of Inl e \<Rightarrow> Inl e | Inr t \<Rightarrow> for_loop ys body t)"
  by (induction xs arbitrary: s) (auto split: sum.splits)

lemma for_loop_cong:
  "(\<And>i t. i \<in> set xs \<Longrightarrow> body i t = body' i t) \<Longrightarrow> for_loop xs body s = for_loop xs body' s"
  by (induction xs arbitrary: s) (auto split: sum.splits)

lemma for_loop_skip:
  "for_loop xs (\<lambda>i t. if p i then Inr t else h i t) s = for_loop (filter (\<lambda>i. \<not> p i) xs) h s"
  by (induction xs arbitrary: s) (auto split: sum.splits)

lemma for_loop_map: "for_loop (map f xs) g s = for_loop xs (\<lambda>i. g (f i)) s"
  by (induction xs arbitrary: s) (auto split: sum.splits)

lemma for_loop_concat:
  "for_loop xs (\<lambda>i t. for_loop (f i) g t) s = for_loop (concat (map f xs)) g s"
  by (induction xs arbitrary: s) (auto simp: for_loop_append split: sum.splits)

lemma count_block_entries_flat:
  "count_block_entries m blockaddr st = for_loop (block_children m blockaddr) push_child st"
proof -
  have "count_block_entries m blockaddr st =
        for_loop [0..<entries_per_block]
          (\<lambda>j t. if \<not> counted (dirent_at m blockaddr j) then Inr t
                  else push_child (unat (inum (dirent_at m blockaddr j))) t) st"
    unfolding count_block_entries_def
    by (rule for_loop_cong)
       (auto simp: Let_def counted_def push_child_def split: prod.splits sum.splits)
  also have "\<dots> = for_loop (filter (\<lambda>j. counted (dirent_at m blockaddr j)) [0..<entries_per_block])
                      (\<lambda>j. push_child (unat (inum (dirent_at m blockaddr j)))) st"
    by (simp add: for_loop_skip)
  also have "\<dots> = for_loop (block_children m blockaddr) push_child st"
    by (simp add: block_children_def for_loop_map)
  finally show ?thesis .
qed

lemma scan_directory_flat:
  "scan_directory m current st = for_loop (inode_children m current) push_child st"
proof -
  let ?direct = "filter (\<lambda>b. b \<noteq> 0) (map (\<lambda>i. addrs current ! i) [0..<NDIRECT])"
  let ?indirect = "if addrs current ! NDIRECT \<noteq> 0
      then filter (\<lambda>b. b \<noteq> 0)
             (map (\<lambda>i. indirect_at m (addrs current ! NDIRECT) i) [0..<NINDIRECT])
      else []"
  have block_loop: "for_loop xs (\<lambda>i t. let b = f i in if b = 0 then Inr t
                                        else count_block_entries m b t) t =
        for_loop (concat (map (block_children m) (filter (\<lambda>b. b \<noteq> 0) (map f xs)))) push_child t"
    for xs :: "nat list" and f t
  proof -
    have "for_loop xs (\<lambda>i t. let b = f i in if b = 0 then Inr t
                                        else count_block_entries m b t) t =
          for_loop (map f xs) (\<lambda>b t. if b = 0 then Inr t
                                      else for_loop (block_children m b) push_child t) t"
      by (simp add: for_loop_map Let_def count_block_entries_flat cong: if_cong)
    also have "\<dots> = for_loop (filter (\<lambda>b. b \<noteq> 0) (map f xs))
                        (\<lambda>b t. for_loop (block_children m b) push_child t) t"
      by (simp add: for_loop_skip)
    also have "\<dots> = for_loop (concat (map (block_children m) (filter (\<lambda>b. b \<noteq> 0) (map f xs))))
                        push_child t"
      by (rule for_loop_concat)
    finally show ?thesis .
  qed
  have "scan_directory m current st =
          (case for_loop (concat (map (block_children m) ?direct)) push_child st of
             Inl e \<Rightarrow> Inl e
           | Inr st' \<Rightarrow> for_loop (concat (map (block_children m) ?indirect)) push_child st')"
    unfolding scan_directory_def block_loop
    by (simp add: Let_def block_loop split: sum.splits)
  also have "\<dots> = for_loop (inode_children m current) push_child st"
    by (simp add: inode_children_def directory_blocks_def for_loop_append)
  finally show ?thesis .
qed

lemma push_child_simp:
  "push_child c (stack, inodemap) =
     (if c < length inodemap then Inr (c # stack, inodemap[c := inodemap ! c + 1])
      else Inl OutOfBounds)"
  by (simp add: push_child_def array_incr_def)

lemma push_children_Inr:
  "for_loop cs push_child (stack, inodemap) = Inr (stack', inodemap') \<Longrightarrow>
     stack' = rev cs @ stack \<and> length inodemap' = length inodemap \<and>
     (\<forall>c \<in> set cs. c < length inodemap)"
proof (induction cs arbitrary: stack inodemap)
  case Nil
  then show ?case by simp
next
  case (Cons a cs)
  from Cons.prems have a: "a < length inodemap"
    and run: "for_loop cs push_child (a # stack, inodemap[a := inodemap ! a + 1]) =
                Inr (stack', inodemap')"
    by (auto simp: push_child_simp split: if_splits)
  from Cons.IH[OF run] a show ?case by simp
qed

lemma push_children_Inl:
  "for_loop cs push_child (stack, inodemap) = Inl e \<Longrightarrow>
     e = OutOfBounds \<and> (\<exists>c \<in> set cs. length inodemap \<le> c)"
proof (induction cs arbitrary: stack inodemap)
  case Nil
  then show ?case by simp
next
  case (Cons a cs)
  show ?case
  proof (cases "a < length inodemap")
    case True
    with Cons.prems
    have "for_loop cs push_child (a # stack, inodemap[a := inodemap ! a + 1]) = Inl e"
      by (simp add: push_child_simp)
    from Cons.IH[OF this] show ?thesis by auto
  next
    case False
    with Cons.prems show ?thesis by (auto simp: push_child_simp)
  qed
qed




section \<open>Counters of the traversal\<close>

lemma validate_directory_rules_small:
  assumes "unat (ninodes sb) < 2"
  shows "validate_directory_rules m sb = Some (Inl OutOfBounds)"
proof -
  have "unat (ninodes sb) = 0 \<or> unat (ninodes sb) = 1" using assms by linarith
  then have "ninodes sb = 0 \<or> ninodes sb = 1"
    by (auto simp: word_unat_eq_iff)
  then show ?thesis
    by (auto simp: validate_directory_rules_def array_incr_def)
qed

lemma seeded_length:
  "length ((replicate n (0::int))[0 := 1, 1 := 1]) = n"
  by simp

section \<open>Properties of the directory scan\<close>

lemma scan_block_root:
  assumes "scan_block m block_address inode_number js found =
             exit_with_error ''root directory does not exist.''"
  shows "\<exists>j \<in> set js. strcmp_eq (name (dirent_at m block_address j)) ''..'' \<and>
           ((inode_number = 1 \<and> unat (inum (dirent_at m block_address j)) \<noteq> inode_number) \<or>
            (inode_number \<noteq> 1 \<and> unat (inum (dirent_at m block_address j)) = inode_number))"
  using assms
  by (induction m block_address inode_number js found rule: scan_block.induct)
     (auto simp: Let_def split: if_splits)

lemma scan_direct_root:
  assumes "scan_direct m inode inode_number ks found =
             exit_with_error ''root directory does not exist.''"
  shows "\<exists>k \<in> set ks. addrs inode ! k \<noteq> 0 \<and>
           (\<exists>j < entries_per_block.
              strcmp_eq (name (dirent_at m (addrs inode ! k) j)) ''..'' \<and>
              ((inode_number = 1 \<and> unat (inum (dirent_at m (addrs inode ! k) j)) \<noteq> inode_number) \<or>
               (inode_number \<noteq> 1 \<and> unat (inum (dirent_at m (addrs inode ! k) j)) = inode_number)))"
  using assms
proof (induction m inode inode_number ks found rule: scan_direct.induct)
  case (1 m inode inode_number found)
  then show ?case by simp
next
  case (2 m inode inode_number dir_idx rest found)
  show ?case
  proof (cases "addrs inode ! dir_idx = 0")
    case True
    with 2 show ?thesis by (auto simp: Let_def)
  next
    case False
    show ?thesis
    proof (cases "scan_block m (addrs inode ! dir_idx) inode_number [0..<entries_per_block] found")
      case (Inl e)
      with 2(3) False
      have "scan_block m (addrs inode ! dir_idx) inode_number [0..<entries_per_block] found =
              exit_with_error ''root directory does not exist.''"
        by (simp add: Let_def)
      from scan_block_root[OF this] False show ?thesis by auto
    next
      case (Inr st)
      with 2 False show ?thesis
        by (cases st) (auto simp: Let_def split: if_splits)
    qed
  qed
qed

lemma validate_directory_structure_root:
  assumes "validate_directory_structure inode m 1 =
             exit_with_error ''root directory does not exist.''"
  shows "\<exists>k < NDIRECT. addrs inode ! k \<noteq> 0 \<and>
           (\<exists>j < entries_per_block.
              strcmp_eq (name (dirent_at m (addrs inode ! k) j)) ''..'' \<and>
              unat (inum (dirent_at m (addrs inode ! k) j)) \<noteq> 1)"
proof -
  from assms have "scan_direct m inode 1 [0..<NDIRECT] (False, False) =
             exit_with_error ''root directory does not exist.''"
    by (auto simp: validate_directory_structure_def exit_with_error_def
             split: sum.splits prod.splits if_splits)
  from scan_direct_root[OF this] show ?thesis by auto
qed

lemma upt_split: "j < n \<Longrightarrow> [0..<n] = [0..<j] @ j # [Suc j..<n]"
  using upt_add_eq_append[of 0 j "n - j"] by (simp add: upt_conv_Cons)

text \<open>
  Entries that are not named \<open>..\<close> and are not a \<open>.\<close> with another inode number than
  the directory's do not stop the scan of a block while \<open>..\<close> has not been found.
\<close>

lemma scan_block_prefix:
  assumes "\<forall>j \<in> set pre. \<not> strcmp_eq (name (dirent_at m b j)) ''..'' \<and>
             (strcmp_eq (name (dirent_at m b j)) ''.'' \<longrightarrow> unat (inum (dirent_at m b j)) = n)"
  shows "\<exists>found_dot'. scan_block m b n (pre @ js) (found_dot, False) =
                        scan_block m b n js (found_dot', False)"
  using assms
proof (induction pre arbitrary: found_dot)
  case Nil
  then show ?case by auto
next
  case (Cons j pre)
  then have IH: "\<exists>found_dot'. scan_block m b n (pre @ js) (fd, False) =
                        scan_block m b n js (found_dot', False)" for fd
    by simp
  show ?case
  proof (cases "strcmp_eq (name (dirent_at m b j)) ''.''")
    case True
    with Cons.prems have "scan_block m b n ((j # pre) @ js) (found_dot, False) =
                          scan_block m b n (pre @ js) (True, False)"
      by (simp add: Let_def)
    with IH[of True] show ?thesis by simp
  next
    case False
    with Cons.prems have "scan_block m b n ((j # pre) @ js) (found_dot, False) =
                          scan_block m b n (pre @ js) (found_dot, False)"
      by (simp add: Let_def)
    with IH[of found_dot] show ?thesis by simp
  qed
qed

lemma scan_block_dotdot:
  assumes "j < entries_per_block"
    and "strcmp_eq (name (dirent_at m b j)) ''..''"
    and "unat (inum (dirent_at m b j)) \<noteq> 1"
    and "\<forall>i < j. \<not> strcmp_eq (name (dirent_at m b i)) ''..'' \<and>
             (strcmp_eq (name (dirent_at m b i)) ''.'' \<longrightarrow> unat (inum (dirent_at m b i)) = 1)"
  shows "scan_block m b 1 [0..<entries_per_block] (found_dot, False) =
           exit_with_error ''root directory does not exist.''"
proof -
  have split: "[0..<entries_per_block] = [0..<j] @ j # [Suc j..<entries_per_block]"
    using assms(1) by (rule upt_split)
  have dotne: "\<not> strcmp_eq (name (dirent_at m b j)) ''.''"
    using assms(2) by (auto simp: strcmp_eq_def)
  from scan_block_prefix[of "[0..<j]" m b 1 "j # [Suc j..<entries_per_block]" found_dot] assms(4)
  obtain fd where "scan_block m b 1 [0..<entries_per_block] (found_dot, False) =
                   scan_block m b 1 (j # [Suc j..<entries_per_block]) (fd, False)"
    unfolding split by auto
  also have "\<dots> = exit_with_error ''root directory does not exist.''"
    using assms(2,3) dotne by (simp add: Let_def)
  finally show ?thesis .
qed

lemma scan_direct_skip:
  assumes "\<forall>k \<in> set pre. addrs inode ! k = 0"
  shows "scan_direct m inode n (pre @ ks) found = scan_direct m inode n ks found"
  using assms by (induction pre) (auto simp: Let_def)

lemma validate_directory_structure_dotdot:
  assumes "k < NDIRECT" and "addrs inode ! k \<noteq> 0" and "\<forall>k' < k. addrs inode ! k' = 0"
    and "j < entries_per_block"
    and "strcmp_eq (name (dirent_at m (addrs inode ! k) j)) ''..''"
    and "unat (inum (dirent_at m (addrs inode ! k) j)) \<noteq> 1"
    and "\<forall>i < j. \<not> strcmp_eq (name (dirent_at m (addrs inode ! k) i)) ''..'' \<and>
             (strcmp_eq (name (dirent_at m (addrs inode ! k) i)) ''.'' \<longrightarrow>
                unat (inum (dirent_at m (addrs inode ! k) i)) = 1)"
  shows "validate_directory_structure inode m 1 =
           exit_with_error ''root directory does not exist.''"
proof -
  have split: "[0..<NDIRECT] = [0..<k] @ k # [Suc k..<NDIRECT]"
    using assms(1) by (rule upt_split)
  have "scan_direct m inode 1 [0..<NDIRECT] (False, False) =
        scan_direct m inode 1 (k # [Suc k..<NDIRECT]) (False, False)"
    unfolding split using assms(3) by (intro scan_direct_skip) auto
  also have "\<dots> = exit_with_error ''root directory does not exist.''"
    using assms(2) scan_block_dotdot[OF assms(4,5,6,7), of False]
    by (simp add: Let_def exit_with_error_def)
  finally show ?thesis
    by (simp add: validate_directory_structure_def exit_with_error_def)
qed

section \<open>Properties of the occurrence counters\<close>

lemma increments_count:
  assumes "for_loop as (\<lambda>a u. array_incr u (uint (a - start))) xs = Inr ys"
  shows "length ys = length xs \<and>
         (\<forall>b < length xs. ys ! b = xs ! b + of_nat (occurrences start as b))"
  using assms
proof (induction as arbitrary: xs)
  case Nil
  then show ?case by (simp add: occurrences_def)
next
  case (Cons a as)
  let ?i = "uint (a - start)"
  from Cons.prems have inb: "?i < int (length xs)"
    and run: "for_loop as (\<lambda>a u. array_incr u (uint (a - start)))
                (xs[nat ?i := xs ! nat ?i + 1]) = Inr ys"
    by (auto simp: array_incr_def split: if_splits)
  from Cons.IH[OF run] have len: "length ys = length xs"
    and IH: "\<forall>b < length xs. ys ! b =
               (xs[nat ?i := xs ! nat ?i + 1]) ! b + of_nat (occurrences start as b)"
    by simp_all
  have "ys ! b = xs ! b + of_nat (occurrences start (a # as) b)" if b: "b < length xs" for b
  proof (cases "?i = int b")
    case True
    then have "nat ?i = b" by simp
    with IH b True show ?thesis by (simp add: occurrences_def ac_simps)
  next
    case False
    have "0 \<le> ?i" by (rule uint_ge_0)
    with False have "nat ?i \<noteq> b" by linarith
    with IH b False show ?thesis by (simp add: occurrences_def)
  qed
  with len show ?case by simp
qed

lemma tally_direct_block_usage_flat:
  "tally_direct_block_usage inode xs start =
     for_loop (filter (\<lambda>a. a \<noteq> 0) (map (\<lambda>s. addrs inode ! s) [0..<NDIRECT]))
       (\<lambda>a u. array_incr u (uint (a - start))) xs"
proof -
  have "tally_direct_block_usage inode xs start =
        for_loop (map (\<lambda>s. addrs inode ! s) [0..<NDIRECT])
          (\<lambda>a u. if a = 0 then Inr u else array_incr u (uint (a - start))) xs"
    by (simp add: tally_direct_block_usage_def for_loop_map Let_def)
  then show ?thesis
    using for_loop_skip[where p = "\<lambda>a. a = 0"
        and h = "\<lambda>a u. array_incr u (uint (a - start))"]
    by simp
qed

lemma count_indirect_block_usage_flat:
  "count_indirect_block_usage inode xs m start =
     for_loop (if addrs inode ! NDIRECT = 0 then []
               else filter (\<lambda>a. a \<noteq> 0)
                      (map (\<lambda>j. indirect_at m (addrs inode ! NDIRECT) j) [0..<NINDIRECT]))
       (\<lambda>a u. array_incr u (uint (a - start))) xs"
proof (cases "addrs inode ! NDIRECT = 0")
  case True
  then show ?thesis by (simp add: count_indirect_block_usage_def)
next
  case False
  have "for_loop [0..<NINDIRECT] (\<lambda>idx usage.
                let current_address = indirect_at m (addrs inode ! NDIRECT) idx
                in if current_address \<noteq> 0
                   then array_incr usage (uint (current_address - start))
                   else Inr usage) xs =
        for_loop (map (\<lambda>j. indirect_at m (addrs inode ! NDIRECT) j) [0..<NINDIRECT])
          (\<lambda>a u. if a = 0 then Inr u else array_incr u (uint (a - start))) xs"
    unfolding for_loop_map by (rule for_loop_cong) (simp add: Let_def)
  with False show ?thesis
    using for_loop_skip[where p = "\<lambda>a. a = 0"
        and h = "\<lambda>a u. array_incr u (uint (a - start))"]
    by (simp add: count_indirect_block_usage_def)
qed

lemma accumulate_loop_split:
  assumes "for_loop ks (\<lambda>inode_idx (direct_usage_counts, indirect_usage_counts).
       let current_inode = inode_at m inode_idx
       in if type current_inode = 0 then Inr (direct_usage_counts, indirect_usage_counts)
          else case tally_direct_block_usage current_inode direct_usage_counts start of
                 Inl e \<Rightarrow> Inl e
               | Inr direct' \<Rightarrow>
                   (case count_indirect_block_usage current_inode indirect_usage_counts
                           m start of
                      Inl e \<Rightarrow> Inl e
                    | Inr indirect' \<Rightarrow> Inr (direct', indirect'))) (d0, i0) = Inr (d, i)"
  shows "for_loop (concat (map (\<lambda>k. if type (inode_at m k) = 0 then []
                       else filter (\<lambda>a. a \<noteq> 0)
                              (map (\<lambda>s. addrs (inode_at m k) ! s) [0..<NDIRECT])) ks))
           (\<lambda>a u. array_incr u (uint (a - start))) d0 = Inr d \<and>
         for_loop (concat (map (\<lambda>k. if type (inode_at m k) = 0 \<or>
                                        addrs (inode_at m k) ! NDIRECT = 0 then []
                       else filter (\<lambda>a. a \<noteq> 0)
                              (map (\<lambda>j. indirect_at m (addrs (inode_at m k) ! NDIRECT) j)
                                 [0..<NINDIRECT])) ks))
           (\<lambda>a u. array_incr u (uint (a - start))) i0 = Inr i"
  using assms
proof (induction ks arbitrary: d0 i0)
  case Nil
  then show ?case by simp
next
  case (Cons k ks)
  show ?case
  proof (cases "type (inode_at m k) = 0")
    case True
    with Cons.prems Cons.IH[of d0 i0] show ?thesis by simp
  next
    case False
    from Cons.prems False obtain d1 i1 where
      t: "tally_direct_block_usage (inode_at m k) d0 start = Inr d1" and
      c: "count_indirect_block_usage (inode_at m k) i0 m start = Inr i1" and
      rest: "for_loop ks (\<lambda>inode_idx (direct_usage_counts, indirect_usage_counts).
       let current_inode = inode_at m inode_idx
       in if type current_inode = 0 then Inr (direct_usage_counts, indirect_usage_counts)
          else case tally_direct_block_usage current_inode direct_usage_counts start of
                 Inl e \<Rightarrow> Inl e
               | Inr direct' \<Rightarrow>
                   (case count_indirect_block_usage current_inode indirect_usage_counts
                           m start of
                      Inl e \<Rightarrow> Inl e
                    | Inr indirect' \<Rightarrow> Inr (direct', indirect'))) (d1, i1) = Inr (d, i)"
      by (auto simp: Let_def split: sum.splits)
    from Cons.IH[OF rest] t c False show ?thesis
      unfolding tally_direct_block_usage_flat count_indirect_block_usage_flat
      by (auto simp: for_loop_append)
  qed
qed

lemma accumulate_usage_counts:
  assumes "accumulate_usage m sb start = Inr (d, i)"
  shows "\<forall>b < unat (nblocks sb).
           d ! b = of_nat (occurrences start (direct_addresses m (unat (ninodes sb))) b) \<and>
           i ! b = of_nat (occurrences start (indirect_addresses m (unat (ninodes sb))) b)"
proof -
  from accumulate_loop_split[OF assms[unfolded accumulate_usage_def]]
  have d: "for_loop (direct_addresses m (unat (ninodes sb)))
             (\<lambda>a u. array_incr u (uint (a - start))) (replicate (unat (nblocks sb)) 0) = Inr d"
    and i: "for_loop (indirect_addresses m (unat (ninodes sb)))
             (\<lambda>a u. array_incr u (uint (a - start))) (replicate (unat (nblocks sb)) 0) = Inr i"
    by (simp_all add: direct_addresses_def indirect_addresses_def)
  from increments_count[OF d] increments_count[OF i] show ?thesis by simp
qed

lemma fcheck_uniqueness_iff:
  assumes "sb = read_superblock m (1 * BSIZE)"
    and "validate_inodes (bitmapblocks_of sb) m sb = Inr ()"
    and "verify_bitmap_usage (bitmapblocks_of sb) m sb (startingblock_of sb) = Inr ()"
  shows "(fcheck m = Some (exit_with_error ''direct address used more than once.'') \<longleftrightarrow>
          validate_block_address_uniqueness m sb (startingblock_of sb) =
            exit_with_error ''direct address used more than once.'') \<and>
         (fcheck m = Some (exit_with_error ''indirect address used more than once.'') \<longleftrightarrow>
          validate_block_address_uniqueness m sb (startingblock_of sb) =
            exit_with_error ''indirect address used more than once.'')"
  using assms unfolding fcheck_def Let_def exit_with_error_def
  by (auto split: sum.splits dest!: validate_directory_rules_errors)

section \<open>Properties of the directory graph and of the traversal\<close>

lemma edges_below: "(p, c) \<in> (edges m n)\<^sup>+ \<Longrightarrow> p < n"
  by (auto dest!: tranclD simp: edges_def)

lemma reaches_cycle_child:
  assumes "reaches_cycle m n x"
  shows "x < n \<and> (\<exists>c \<in> set (children m x). reaches_cycle m n c)"
proof -
  from assms obtain d where d: "(x, d) \<in> (edges m n)\<^sup>*" "(d, d) \<in> (edges m n)\<^sup>+"
    by (auto simp: reaches_cycle_def)
  show ?thesis
  proof (cases "x = d")
    case True
    from d(2) obtain c where c: "(d, c) \<in> edges m n" "(c, d) \<in> (edges m n)\<^sup>*"
      by (auto dest: tranclD)
    then have "reaches_cycle m n c" using d(2) by (auto simp: reaches_cycle_def)
    with c True show ?thesis by (auto simp: edges_def)
  next
    case False
    with d(1) obtain c where c: "(x, c) \<in> edges m n" "(c, d) \<in> (edges m n)\<^sup>*"
      by (auto elim: converse_rtranclE)
    then have "reaches_cycle m n c" using d(2) by (auto simp: reaches_cycle_def)
    with c show ?thesis by (auto simp: edges_def)
  qed
qed





lemma scan_loop_cycle:
  assumes "scan_loop m stack inodemap = Some y"
    and "\<exists>x \<in> set stack. reaches_cycle m (length inodemap) x"
  shows "y \<noteq> Inr inodemap'"
proof -
  have "scan_loop m stack inodemap = Some y \<Longrightarrow>
        (\<exists>x \<in> set stack. reaches_cycle m (length inodemap) x) \<longrightarrow> (\<forall>r. y \<noteq> Inr r)"
  proof (rule scan_loop.raw_induct[where
           P = "\<lambda>m stack inodemap y.
                  (\<exists>x \<in> set stack. reaches_cycle m (length inodemap) x) \<longrightarrow> (\<forall>r. y \<noteq> Inr r)"],
         goal_cases)
    case (1 loop m stack inodemap y)
    show ?case
    proof (intro impI)
      assume "\<exists>x \<in> set stack. reaches_cycle m (length inodemap) x"
      then obtain x where x: "x \<in> set stack" "reaches_cycle m (length inodemap) x" by blast
      then obtain current rest where stack: "stack = current # rest" by (cases stack) auto
      show "\<forall>r. y \<noteq> Inr r"
      proof (cases "type (inode_at m current) = INODE_DIR")
        case False
        then have "children m current = []" by (simp add: children_def)
        with reaches_cycle_child[of m "length inodemap" current]
        have "\<not> reaches_cycle m (length inodemap) current" by auto
        with x stack have "\<exists>x \<in> set rest. reaches_cycle m (length inodemap) x" by auto
        moreover from 1(3) False stack have "loop m rest inodemap = Some y" by simp
        ultimately show ?thesis using 1(2) by blast
      next
        case True
        show ?thesis
        proof (cases "for_loop (children m current) push_child (rest, inodemap)")
          case (Inl e)
          with 1(3) True stack show ?thesis
            by (auto simp: scan_directory_flat children_def)
        next
          case (Inr st)
          obtain stack' inodemap' where st: "st = (stack', inodemap')" by (cases st)
          from Inr st have stack': "stack' = rev (children m current) @ rest"
            and len: "length inodemap' = length inodemap"
            by (auto dest: push_children_Inr)
          from 1(3) True stack Inr st have run: "loop m stack' inodemap' = Some y"
            by (simp add: scan_directory_flat children_def)
          have "\<exists>x \<in> set stack'. reaches_cycle m (length inodemap) x"
          proof (cases "x = current")
            case True
            with x reaches_cycle_child[of m "length inodemap" current] show ?thesis
              using stack' by auto
          next
            case False
            with x stack stack' show ?thesis by auto
          qed
          with run 1(2) len show ?thesis by fastforce
        qed
      qed
    qed
  qed
  with assms show ?thesis by blast
qed

lemma reaches_outside_child:
  assumes "reaches_outside m n x"
  shows "x < n \<and> ((\<exists>c \<in> set (children m x). n \<le> c) \<or>
                   (\<exists>c \<in> set (children m x). reaches_outside m n c))"
proof -
  from assms obtain d c where d: "(x, d) \<in> (edges m n)\<^sup>*" "(d, c) \<in> edges m n" "n \<le> c"
    by (auto simp: reaches_outside_def)
  show ?thesis
  proof (cases "x = d")
    case True
    with d show ?thesis by (auto simp: edges_def)
  next
    case False
    with d(1) obtain c' where c': "(x, c') \<in> edges m n" "(c', d) \<in> (edges m n)\<^sup>*"
      by (auto elim: converse_rtranclE)
    with d have "reaches_outside m n c'" by (auto simp: reaches_outside_def)
    with c' show ?thesis by (auto simp: edges_def)
  qed
qed

lemma reaches_outside_parent:
  "x < n \<Longrightarrow> c \<in> set (children m x) \<Longrightarrow> n \<le> c \<or> reaches_outside m n c \<Longrightarrow>
     reaches_outside m n x"
  unfolding reaches_outside_def edges_def
  by (auto intro: converse_rtrancl_into_rtrancl)

lemma scan_loop_fault:
  assumes "scan_loop m stack inodemap = Some (Inl e)"
    and "\<forall>x \<in> set stack. x < length inodemap"
  shows "e = OutOfBounds \<and> (\<exists>x \<in> set stack. reaches_outside m (length inodemap) x)"
proof -
  have "scan_loop m stack inodemap = Some y \<Longrightarrow>
        (\<forall>x \<in> set stack. x < length inodemap) \<longrightarrow>
        (\<forall>e. y = Inl e \<longrightarrow> (\<exists>x \<in> set stack. reaches_outside m (length inodemap) x))" for y
  proof (rule scan_loop.raw_induct[where
           P = "\<lambda>m stack inodemap y.
                  (\<forall>x \<in> set stack. x < length inodemap) \<longrightarrow>
                  (\<forall>e. y = Inl e \<longrightarrow>
                     (\<exists>x \<in> set stack. reaches_outside m (length inodemap) x))"],
         goal_cases)
    case (1 loop m stack inodemap y)
    show ?case
    proof (intro allI impI)
      fix e assume bound: "\<forall>x \<in> set stack. x < length inodemap" and y: "y = Inl e"
      with 1(3) obtain current rest where stack: "stack = current # rest"
        by (cases stack) auto
      from bound stack have cur: "current < length inodemap" by simp
      show "\<exists>x \<in> set stack. reaches_outside m (length inodemap) x"
      proof (cases "type (inode_at m current) = INODE_DIR")
        case False
        with 1(3) stack have "loop m rest inodemap = Some y" by simp
        with 1(2) y stack bound show ?thesis by fastforce
      next
        case True
        show ?thesis
        proof (cases "for_loop (children m current) push_child (rest, inodemap)")
          case (Inl e')
          then obtain c where "c \<in> set (children m current)" "length inodemap \<le> c"
            by (auto dest: push_children_Inl)
          with cur have "reaches_outside m (length inodemap) current"
            by (auto intro: reaches_outside_parent)
          with stack show ?thesis by simp
        next
          case (Inr st)
          obtain stack' inodemap' where st: "st = (stack', inodemap')" by (cases st)
          from Inr st have stack': "stack' = rev (children m current) @ rest"
            and len: "length inodemap' = length inodemap"
            and inb: "\<forall>c \<in> set (children m current). c < length inodemap"
            by (auto dest: push_children_Inr)
          from 1(3) True stack Inr st have "loop m stack' inodemap' = Some y"
            by (simp add: scan_directory_flat children_def)
          moreover have "\<forall>x \<in> set stack'. x < length inodemap'"
            using bound stack stack' inb len by auto
          ultimately obtain x where x: "x \<in> set stack'"
            "reaches_outside m (length inodemap) x" using 1(2) y len by fastforce
          show ?thesis
          proof (cases "x \<in> set rest")
            case True
            with x stack show ?thesis by auto
          next
            case False
            with x stack' have "x \<in> set (children m current)" by auto
            with x(2) cur have "reaches_outside m (length inodemap) current"
              by (auto intro: reaches_outside_parent)
            with stack show ?thesis by simp
          qed
        qed
      qed
    qed
  qed
  with assms scan_loop_errors[OF assms(1)] show ?thesis by blast
qed

lemma scan_loop_in_bounds:
  assumes "scan_loop m stack inodemap = Some (Inr inodemap')"
  shows "length inodemap' = length inodemap \<and>
         (\<forall>x \<in> set stack. \<not> reaches_outside m (length inodemap) x)"
proof -
  have "scan_loop m stack inodemap = Some y \<Longrightarrow>
        (\<forall>r. y = Inr r \<longrightarrow> length r = length inodemap \<and>
              (\<forall>x \<in> set stack. \<not> reaches_outside m (length inodemap) x))" for y
  proof (rule scan_loop.raw_induct[where
           P = "\<lambda>m stack inodemap y.
                  \<forall>r. y = Inr r \<longrightarrow> length r = length inodemap \<and>
                      (\<forall>x \<in> set stack. \<not> reaches_outside m (length inodemap) x)"],
         goal_cases)
    case (1 loop m stack inodemap y)
    show ?case
    proof (intro allI impI)
      fix r assume y: "y = Inr r"
      show "length r = length inodemap \<and>
            (\<forall>x \<in> set stack. \<not> reaches_outside m (length inodemap) x)"
      proof (cases stack)
        case Nil
        with 1(3) y show ?thesis by simp
      next
        case (Cons current rest)
        show ?thesis
        proof (cases "type (inode_at m current) = INODE_DIR")
          case False
          then have "children m current = []" by (simp add: children_def)
          with reaches_outside_child[of m "length inodemap" current]
          have nc: "\<not> reaches_outside m (length inodemap) current" by auto
          from 1(3) False Cons have "loop m rest inodemap = Some y" by simp
          with 1(2) y have "length r = length inodemap \<and>
              (\<forall>x \<in> set rest. \<not> reaches_outside m (length inodemap) x)" by blast
          with nc Cons show ?thesis by simp
        next
          case True
          show ?thesis
          proof (cases "for_loop (children m current) push_child (rest, inodemap)")
            case (Inl e')
            with 1(3) True Cons y show ?thesis
              by (simp add: scan_directory_flat children_def)
          next
            case (Inr st)
            obtain stack' inodemap' where st: "st = (stack', inodemap')" by (cases st)
            from Inr st have stack': "stack' = rev (children m current) @ rest"
              and len: "length inodemap' = length inodemap"
              and inb: "\<forall>c \<in> set (children m current). c < length inodemap"
              by (auto dest: push_children_Inr)
            from 1(3) True Cons Inr st have "loop m stack' inodemap' = Some y"
              by (simp add: scan_directory_flat children_def)
            with 1(2) y len have IH: "length r = length inodemap"
              "\<forall>x \<in> set stack'. \<not> reaches_outside m (length inodemap) x" by fastforce+
            have "\<not> reaches_outside m (length inodemap) current"
              using reaches_outside_child[of m "length inodemap" current] inb IH(2) stack'
              by fastforce
            with IH stack' Cons show ?thesis by simp
          qed
        qed
      qed
    qed
  qed
  with assms show ?thesis by blast
qed

lemma scan_loop_cycle_cases:
  assumes "reaches_cycle m (length inodemap) rootinode"
  shows "scan_loop m [rootinode] inodemap = None \<or>
         scan_loop m [rootinode] inodemap = Some (Inl OutOfBounds)"
proof (cases "scan_loop m [rootinode] inodemap")
  case None
  then show ?thesis by simp
next
  case (Some res)
  show ?thesis
  proof (cases res)
    case (Inl e)
    with Some show ?thesis by (auto dest: scan_loop_errors)
  next
    case (Inr r)
    with Some scan_loop_cycle[of m "[rootinode]" inodemap res r] assms
    show ?thesis by auto
  qed
qed

lemma scan_loop_diverges:
  assumes "reaches_cycle m (length inodemap) rootinode"
    and "\<not> reaches_outside m (length inodemap) rootinode"
  shows "scan_loop m [rootinode] inodemap = None"
proof -
  from assms(1) have "rootinode < length inodemap" by (auto dest: reaches_cycle_child)
  with assms(2) have "scan_loop m [rootinode] inodemap \<noteq> Some (Inl OutOfBounds)"
    by (auto dest: scan_loop_fault)
  with scan_loop_cycle_cases[OF assms(1)] show ?thesis by blast
qed

section \<open>The directory graphs of the images\<close>

lemma below_four: "p < (4::nat) \<Longrightarrow> p = 0 \<or> p = 1 \<or> p = 2 \<or> p = 3"
  by linarith

lemma good_image_children:
  "children good_image 0 = []" "children good_image (Suc 0) = [2]"
  "children good_image 2 = []" "children good_image 3 = []"
  by code_simp+

lemma good_image_edges: "edges good_image 4 = {(1, 2)}"
  unfolding edges_def using good_image_children
  by (auto dest!: below_four)


lemma reachable_closed:
  assumes "(x, d) \<in> (edges m n)\<^sup>*" and "x \<in> S"
    and "\<And>p c. p \<in> S \<Longrightarrow> c \<in> set (children m p) \<Longrightarrow> c \<in> S"
  shows "d \<in> S"
  using assms(1,2)
proof (induction rule: rtrancl_induct)
  case base
  then show ?case .
next
  case (step y z)
  then show ?case using assms(3)[of y z] by (auto simp: edges_def)
qed

lemma good_image_in_bounds: "\<not> reaches_outside good_image 4 1"
  unfolding reaches_outside_def good_image_edges by auto

lemma cyclic_image_children:
  "children cyclic_image (Suc 0) = [2]" "children cyclic_image 2 = [Suc 0]"
  by code_simp+

lemma cyclic_image_reaches_cycle: "reaches_cycle cyclic_image 4 1"
proof -
  have "(1, 2) \<in> edges cyclic_image 4" "(2, 1) \<in> edges cyclic_image 4"
    by (simp_all add: edges_def cyclic_image_children)
  then have "(1, 1) \<in> (edges cyclic_image 4)\<^sup>+" by (rule trancl_into_trancl2[OF _ r_into_trancl])
  then show ?thesis unfolding reaches_cycle_def by blast
qed

lemma cyclic_image_in_bounds: "\<not> reaches_outside cyclic_image 4 1"
proof
  assume "reaches_outside cyclic_image 4 1"
  then obtain d c where d: "(1, d) \<in> (edges cyclic_image 4)\<^sup>*"
    "(d, c) \<in> edges cyclic_image 4" "4 \<le> c"
    by (auto simp: reaches_outside_def)
  have closed: "c \<in> {1, 2}" if "p \<in> {1, 2}" "c \<in> set (children cyclic_image p)" for p c
    using that by (auto simp: cyclic_image_children)
  have "d \<in> {1, 2}"
    by (rule reachable_closed[OF d(1)]) (use closed in auto)
  with d(2) have "c \<in> {1, 2}" using closed[of d c] by (simp add: edges_def)
  with d(3) show False by auto
qed



section \<open>Properties of the type check\<close>

lemma fcheck_bad_inode_iff:
  "fcheck m = Some (exit_with_error ''bad inode.'') \<longleftrightarrow>
     validate_inodes (bitmapblocks_of (read_superblock m (1 * BSIZE))) m
        (read_superblock m (1 * BSIZE)) = exit_with_error ''bad inode.''"
  unfolding fcheck_def Let_def exit_with_error_def
  by (auto split: sum.splits
           dest!: verify_bitmap_usage_errors validate_block_address_uniqueness_errors
                  validate_directory_rules_errors)

lemma validate_inode_bad_type_iff:
  "validate_inode bitmapblocks m sb k = exit_with_error ''bad inode.'' \<longleftrightarrow>
   type (inode_at m k) \<notin> {0, INODE_DIR, INODE_FILE, INODE_DEV}"
proof (cases "type (inode_at m k) = 0")
  case True
  then show ?thesis by (simp add: validate_inode_def)
next
  case False
  show ?thesis
  proof (cases "type (inode_at m k) \<in> {INODE_DIR, INODE_FILE, INODE_DEV}")
    case True
    then have ok: "validate_inode_type (inode_at m k) = Inr ()"
      by (auto simp: validate_inode_type_def)
    have "validate_inode bitmapblocks m sb k \<noteq> exit_with_error ''bad inode.''"
    proof
      assume "validate_inode bitmapblocks m sb k = exit_with_error ''bad inode.''"
      then have "validate_inode bitmapblocks m sb k = Inl (Exit (error_line ''bad inode.''))"
        by (simp add: exit_with_error_def)
      then show False
        using False ok
        by (auto simp: validate_inode_def Let_def andthen_Inl_iff exit_with_error_def
                 split: if_splits
                 dest!: validate_block_addresses_errors validate_directory_structure_errors
                        validate_bitmap_addr_errors)
    qed
    with True show ?thesis by auto
  next
    case invalid: False
    then have "validate_inode_type (inode_at m k) = exit_with_error ''bad inode.''"
      by (auto simp: validate_inode_type_def)
    with False invalid show ?thesis
      by (auto simp: validate_inode_def Let_def)
  qed
qed

lemma validate_inodes_bad_type_iff:
  "validate_inodes bitmapblocks m sb = exit_with_error ''bad inode.'' \<longleftrightarrow>
      (\<exists>k < unat (ninodes sb).
          type (inode_at m k) \<notin> {0, INODE_DIR, INODE_FILE, INODE_DEV} \<and>
          (\<forall>j < k. validate_inode bitmapblocks m sb j = Inr ()))"
  unfolding validate_inodes_def exit_with_error_def for_each_upt_Inl_iff
  using validate_inode_bad_type_iff by (auto simp: exit_with_error_def)

section \<open>Termination of the reference-count pass\<close>





section \<open>The type check\<close>

text \<open>
  C7, as stated: for every inode whose type field is not zero, the checker fails with
  \<open>bad inode.\<close> exactly when that type is none of Directory, RegularFile and Device. On
  the image below inode 2 has the type 7, and the checker stops at inode 1, whose entry
  \<open>..\<close> names inode 2, with \<open>root directory does not exist.\<close>
\<close>

theorem bad_type_counterexample:
  "type (inode_at root_first_image 2) = 7 \<and>
   type (inode_at root_first_image 2) \<notin> {0, INODE_DIR, INODE_FILE, INODE_DEV} \<and>
   2 < unat (ninodes (read_superblock root_first_image (1 * BSIZE))) \<and>
   validate_inode (bitmapblocks_of (read_superblock root_first_image (1 * BSIZE)))
     root_first_image (read_superblock root_first_image (1 * BSIZE)) 1 =
     exit_with_error ''root directory does not exist.'' \<and>
   fcheck root_first_image = Some (exit_with_error ''root directory does not exist.'')"
  by code_simp

text \<open>
  C7, amended. For an inode whose type field is not zero, the per-inode checks of that
  inode stop with \<open>bad inode.\<close> exactly when the type is none of Directory, RegularFile
  and Device. An inode of type 0 is skipped: its per-inode checks report nothing. The
  per-inode pass, and the checker as a whole, stops with \<open>bad inode.\<close> exactly when
  some inode below the inode count has a type that is none of 0, Directory, RegularFile
  and Device and the per-inode checks of all inodes before it report nothing.
\<close>

theorem validate_inode_bad_type:
  "(type (inode_at m i) \<noteq> 0 \<longrightarrow>
      (validate_inode bitmapblocks m sb i = exit_with_error ''bad inode.'' \<longleftrightarrow>
       type (inode_at m i) \<notin> {INODE_DIR, INODE_FILE, INODE_DEV})) \<and>
   (type (inode_at m i) = 0 \<longrightarrow> validate_inode bitmapblocks m sb i = Inr ()) \<and>
   (validate_inodes bitmapblocks m sb = exit_with_error ''bad inode.'' \<longleftrightarrow>
      (\<exists>k < unat (ninodes sb).
          type (inode_at m k) \<notin> {0, INODE_DIR, INODE_FILE, INODE_DEV} \<and>
          (\<forall>j < k. validate_inode bitmapblocks m sb j = Inr ()))) \<and>
   (fcheck m = Some (exit_with_error ''bad inode.'') \<longleftrightarrow>
      (\<exists>k < unat (ninodes (read_superblock m (1 * BSIZE))).
          type (inode_at m k) \<notin> {0, INODE_DIR, INODE_FILE, INODE_DEV} \<and>
          (\<forall>j < k. validate_inode (bitmapblocks_of (read_superblock m (1 * BSIZE))) m
                      (read_superblock m (1 * BSIZE)) j = Inr ())))"
proof -
  have skipped: "validate_inode bitmapblocks m sb i = Inr ()" if "type (inode_at m i) = 0"
    using that by (simp add: validate_inode_def)
  have one: "validate_inode bitmapblocks m sb i = exit_with_error ''bad inode.'' \<longleftrightarrow>
        type (inode_at m i) \<notin> {INODE_DIR, INODE_FILE, INODE_DEV}"
    if "type (inode_at m i) \<noteq> 0"
    using that validate_inode_bad_type_iff[of bitmapblocks m sb i] by auto
  from skipped one validate_inodes_bad_type_iff[of bitmapblocks m sb]
    fcheck_bad_inode_iff[of m]
    validate_inodes_bad_type_iff[of "bitmapblocks_of (read_superblock m (1 * BSIZE))" m
      "read_superblock m (1 * BSIZE)"]
  show ?thesis by blast
qed

theorem validate_inode_bad_type_witness:
  "type (inode_at bad_type_image 2) \<noteq> 0 \<and>
   validate_inode 1536 bad_type_image good_sb 2 = exit_with_error ''bad inode.'' \<and>
   type (inode_at bad_type_image 0) = 0 \<and>
   validate_inode 1536 bad_type_image good_sb 0 = Inr () \<and>
   validate_inodes 1536 bad_type_image good_sb = exit_with_error ''bad inode.'' \<and>
   fcheck bad_type_image = Some (exit_with_error ''bad inode.'')"
proof -
  have t2: "type (inode_at bad_type_image 2) = 7" by code_simp
  have t0: "type (inode_at bad_type_image 0) = 0" by code_simp
  have n: "unat (ninodes good_sb) = 4" by code_simp
  have sb: "read_superblock bad_type_image (1 * BSIZE) = good_sb" by code_simp
  have bmb: "bitmapblocks_of good_sb = 1536" by code_simp
  have v1: "validate_inode 1536 bad_type_image good_sb 1 = Inr ()" by code_simp
  have bad: "type (inode_at bad_type_image 2) \<notin> {0, INODE_DIR, INODE_FILE, INODE_DEV}"
    by (simp add: t2 INODE_DIR_def INODE_FILE_def INODE_DEV_def)
  from validate_inode_bad_type[of bad_type_image 0 1536 good_sb] t0
  have v0: "validate_inode 1536 bad_type_image good_sb 0 = Inr ()" by simp
  have before: "\<forall>j < 2. validate_inode 1536 bad_type_image good_sb j = Inr ()"
    using v0 v1 by (auto simp: less_Suc_eq numeral_2_eq_2)
  from validate_inode_bad_type[of bad_type_image 2 1536 good_sb] bad
  have v2: "validate_inode 1536 bad_type_image good_sb 2 = exit_with_error ''bad inode.''"
    by simp
  have ex: "\<exists>k < unat (ninodes good_sb).
          type (inode_at bad_type_image k) \<notin> {0, INODE_DIR, INODE_FILE, INODE_DEV} \<and>
          (\<forall>j < k. validate_inode 1536 bad_type_image good_sb j = Inr ())"
    using bad before n by (intro exI[of _ 2]) simp
  with validate_inode_bad_type[of bad_type_image 2 1536 good_sb]
  have vs: "validate_inodes 1536 bad_type_image good_sb = exit_with_error ''bad inode.''"
    by blast
  from ex have "\<exists>k < unat (ninodes (read_superblock bad_type_image (1 * BSIZE))).
          type (inode_at bad_type_image k) \<notin> {0, INODE_DIR, INODE_FILE, INODE_DEV} \<and>
          (\<forall>j < k. validate_inode
                      (bitmapblocks_of (read_superblock bad_type_image (1 * BSIZE)))
                      bad_type_image (read_superblock bad_type_image (1 * BSIZE)) j = Inr ())"
    unfolding sb bmb .
  with validate_inode_bad_type[of bad_type_image 2 1536 good_sb]
  have f: "fcheck bad_type_image = Some (exit_with_error ''bad inode.'')"
    by blast
  from t2 t0 v0 v2 vs f show ?thesis by simp
qed

section \<open>The text of the messages\<close>

text \<open>
  C2. Every line the checker writes for a structural violation is \<open>ERROR: \<close> followed
  by one of the message texts of section 6, which all end with a period; a directory
  whose \<open>.\<close> entry carries another inode number than its own is reported as
  \<open>directory not properly formatted.\<close>. On the image below, inode 2 is a directory
  whose \<open>.\<close> entry carries inode number 3, and the text the checker writes is
  \<open>directory not properly formatted\<close> without the period, which is none of the texts
  of section 6.
\<close>

theorem dot_mismatch_message_without_period:
  "type (inode_at dot_image 2) = INODE_DIR \<and>
   strcmp_eq (name (dirent_at dot_image 5 0)) ''.'' \<and>
   inum (dirent_at dot_image 5 0) = 3 \<and>
   fcheck dot_image = Some (Inl (Exit (''ERROR: directory not properly formatted'' @ [CHR 0x0A]))) \<and>
   fcheck dot_image \<noteq> Some (exit_with_error ''directory not properly formatted.'') \<and>
   ''directory not properly formatted'' \<notin> set section6_messages"
  by code_simp

text \<open>
  Apart from that text, every line the checker writes for a structural violation is
  \<open>ERROR: \<close> followed by a text of section 6.
\<close>

lemma fcheck_messages:
  assumes "fcheck m = Some (Inl (Exit line))"
  shows "line \<in> error_line ` (set section6_messages \<union> {''directory not properly formatted''})"
proof -
  let ?sb = "read_superblock m (1 * BSIZE)"
  have inodes: "e = Exit (error_line ''bad inode.'') \<or>
      e = Exit (error_line ''bad direct address in inode.'') \<or>
      e = Exit (error_line ''bad indirect address in inode.'') \<or>
      e = Exit (error_line ''directory not properly formatted'') \<or>
      e = Exit (error_line ''root directory does not exist.'') \<or>
      e = Exit (error_line ''directory not properly formatted.'') \<or>
      e = Exit (error_line ''address used by inode but marked free in bitmap.'')"
    if "validate_inodes (bitmapblocks_of ?sb) m ?sb = Inl e" for e
  proof -
    from that obtain k where "validate_inode (bitmapblocks_of ?sb) m ?sb k = Inl e"
      unfolding validate_inodes_def by (auto dest: for_each_InlD)
    then show ?thesis
      unfolding validate_inode_def Let_def
      by (auto simp: andthen_Inl_iff exit_with_error_def split: if_splits
               dest: validate_inode_type_errors validate_block_addresses_errors
                     validate_directory_structure_errors validate_bitmap_addr_errors)
  qed
  from assms consider
      "validate_inodes (bitmapblocks_of ?sb) m ?sb = Inl (Exit line)"
    | "verify_bitmap_usage (bitmapblocks_of ?sb) m ?sb (startingblock_of ?sb) = Inl (Exit line)"
    | "validate_block_address_uniqueness m ?sb (startingblock_of ?sb) = Inl (Exit line)"
    | "validate_directory_rules m ?sb = Some (Inl (Exit line))"
    unfolding fcheck_def Let_def by (auto split: sum.splits)
  then show ?thesis
  proof cases
    case 1
    from inodes[OF this] show ?thesis by (auto simp: section6_messages_def)
  next
    case 2
    from verify_bitmap_usage_errors[OF this] show ?thesis
      by (auto simp: section6_messages_def)
  next
    case 3
    from validate_block_address_uniqueness_errors[OF this] show ?thesis
      by (auto simp: section6_messages_def)
  next
    case 4
    from validate_directory_rules_errors[OF this] show ?thesis
      by (auto simp: section6_messages_def)
  qed
qed

section \<open>Blocks used more than once\<close>

text \<open>
  C5, as stated: the checker stops with \<open>direct address used more than once.\<close> exactly
  when the direct counter of some block exceeds 1. On the image below the direct counter
  of the second data block is 2, and the checker stops with the message for indirect
  addresses, because the indirect counter of the first data block is 2 as well.
\<close>

theorem uniqueness_counterexample:
  "accumulate_usage shared_image (read_superblock shared_image (1 * BSIZE))
       (startingblock_of (read_superblock shared_image (1 * BSIZE))) = Inr ([1, 2, 0, 0], [2, 0, 0, 0]) \<and>
   fcheck shared_image = Some (exit_with_error ''indirect address used more than once.'')"
  by code_simp

text \<open>
  C5, amended. There are two independent counters for every block of the data region,
  the block being given by its index from the start of the data region. Whenever the
  accumulation makes no access out of bounds, the following holds. The direct counter of
  a block is the number of occurrences of the block among the non-zero direct addresses
  of the in-use inodes, and its indirect counter is the number of occurrences of the
  block among the non-zero entries of the indirect blocks of the in-use inodes whose
  indirect address is not zero, both taken in \<open>unsigned int\<close>. The counters are
  looked at block by block, the direct counter of a block before its indirect counter,
  and the first counter above 1 decides: the check stops with \<open>direct address used more than once.\<close> exactly when
  some block has a direct counter above 1 and no block before it has any counter above 1;
  it stops with \<open>indirect address used more than once.\<close> exactly when some block has an
  indirect counter above 1, a direct counter of at most 1, and no block before it has any
  counter above 1; and it passes exactly when no counter is above 1. In particular the
  check passes when every block occurs at most once among the direct addresses and at
  most once among the entries of the indirect blocks, so that a block used once as a
  direct address and once inside an indirect block triggers neither message. When the
  two earlier passes report nothing, the checker as a whole stops with either message
  exactly when this check does.
\<close>

theorem uniqueness_first_counter_decides:
  assumes "accumulate_usage m sb start = Inr (d, i)"
  shows "length d = unat (nblocks sb) \<and> length i = unat (nblocks sb) \<and>
    (\<forall>b < unat (nblocks sb).
        d ! b = of_nat (occurrences start (direct_addresses m (unat (ninodes sb))) b) \<and>
        i ! b = of_nat (occurrences start (indirect_addresses m (unat (ninodes sb))) b)) \<and>
    (validate_block_address_uniqueness m sb start =
        exit_with_error ''direct address used more than once.'' \<longleftrightarrow>
       (\<exists>b < unat (nblocks sb). d ! b > 1 \<and> (\<forall>c < b. d ! c \<le> 1 \<and> i ! c \<le> 1))) \<and>
    (validate_block_address_uniqueness m sb start =
        exit_with_error ''indirect address used more than once.'' \<longleftrightarrow>
       (\<exists>b < unat (nblocks sb). i ! b > 1 \<and> d ! b \<le> 1 \<and> (\<forall>c < b. d ! c \<le> 1 \<and> i ! c \<le> 1))) \<and>
    (validate_block_address_uniqueness m sb start = Inr () \<longleftrightarrow>
       (\<forall>b < unat (nblocks sb). d ! b \<le> 1 \<and> i ! b \<le> 1)) \<and>
    ((\<forall>b < unat (nblocks sb).
        occurrences start (direct_addresses m (unat (ninodes sb))) b \<le> 1 \<and>
        occurrences start (indirect_addresses m (unat (ninodes sb))) b \<le> 1) \<longrightarrow>
     validate_block_address_uniqueness m sb start = Inr ()) \<and>
    (sb = read_superblock m (1 * BSIZE) \<and> start = startingblock_of sb \<and>
     validate_inodes (bitmapblocks_of sb) m sb = Inr () \<and>
     verify_bitmap_usage (bitmapblocks_of sb) m sb start = Inr () \<longrightarrow>
       (fcheck m = Some (exit_with_error ''direct address used more than once.'') \<longleftrightarrow>
        validate_block_address_uniqueness m sb start =
          exit_with_error ''direct address used more than once.'') \<and>
       (fcheck m = Some (exit_with_error ''indirect address used more than once.'') \<longleftrightarrow>
        validate_block_address_uniqueness m sb start =
          exit_with_error ''indirect address used more than once.''))"
proof -
  have eq: "validate_block_address_uniqueness m sb start = check_usage_counts (unat (nblocks sb)) d i"
    using assms by (simp add: validate_block_address_uniqueness_def)
  have direct: "check_usage_counts (unat (nblocks sb)) d i =
                  exit_with_error ''direct address used more than once.'' \<longleftrightarrow>
       (\<exists>b < unat (nblocks sb). d ! b > 1 \<and> (\<forall>c < b. d ! c \<le> 1 \<and> i ! c \<le> 1))"
    unfolding exit_with_error_def check_usage_counts_Inl_iff
    by (auto split: if_splits)
  have indirect: "check_usage_counts (unat (nblocks sb)) d i =
                  exit_with_error ''indirect address used more than once.'' \<longleftrightarrow>
       (\<exists>b < unat (nblocks sb). i ! b > 1 \<and> d ! b \<le> 1 \<and> (\<forall>c < b. d ! c \<le> 1 \<and> i ! c \<le> 1))"
    unfolding exit_with_error_def check_usage_counts_Inl_iff
    by (auto simp: not_less split: if_splits)
  note counts = accumulate_usage_counts[OF assms]
  have small: "(of_nat k :: 32 word) \<le> 1" if "k \<le> 1" for k :: nat
  proof -
    from that have "k = 0 \<or> k = 1" by linarith
    then show ?thesis by auto
  qed
  have once: "validate_block_address_uniqueness m sb start = Inr ()"
    if "\<forall>b < unat (nblocks sb).
        occurrences start (direct_addresses m (unat (ninodes sb))) b \<le> 1 \<and>
        occurrences start (indirect_addresses m (unat (ninodes sb))) b \<le> 1"
    using that counts small by (simp add: eq check_usage_counts_Inr_iff)
  have pass: "validate_block_address_uniqueness m sb start = Inr () \<longleftrightarrow>
       (\<forall>b < unat (nblocks sb). d ! b \<le> 1 \<and> i ! b \<le> 1)"
    by (simp add: eq check_usage_counts_Inr_iff)
  have whole: "(fcheck m = Some (exit_with_error ''direct address used more than once.'') \<longleftrightarrow>
        validate_block_address_uniqueness m sb start =
          exit_with_error ''direct address used more than once.'') \<and>
       (fcheck m = Some (exit_with_error ''indirect address used more than once.'') \<longleftrightarrow>
        validate_block_address_uniqueness m sb start =
          exit_with_error ''indirect address used more than once.'')"
    if "sb = read_superblock m (1 * BSIZE) \<and> start = startingblock_of sb \<and>
     validate_inodes (bitmapblocks_of sb) m sb = Inr () \<and>
     verify_bitmap_usage (bitmapblocks_of sb) m sb start = Inr ()"
    using that fcheck_uniqueness_iff[of sb m] by blast
  have parts: "length d = unat (nblocks sb) \<and> length i = unat (nblocks sb) \<and>
    (\<forall>b < unat (nblocks sb).
        d ! b = of_nat (occurrences start (direct_addresses m (unat (ninodes sb))) b) \<and>
        i ! b = of_nat (occurrences start (indirect_addresses m (unat (ninodes sb))) b)) \<and>
    (check_usage_counts (unat (nblocks sb)) d i =
        exit_with_error ''direct address used more than once.'' \<longleftrightarrow>
       (\<exists>b < unat (nblocks sb). d ! b > 1 \<and> (\<forall>c < b. d ! c \<le> 1 \<and> i ! c \<le> 1))) \<and>
    (check_usage_counts (unat (nblocks sb)) d i =
        exit_with_error ''indirect address used more than once.'' \<longleftrightarrow>
       (\<exists>b < unat (nblocks sb). i ! b > 1 \<and> d ! b \<le> 1 \<and> (\<forall>c < b. d ! c \<le> 1 \<and> i ! c \<le> 1))) \<and>
    (check_usage_counts (unat (nblocks sb)) d i = Inr () \<longleftrightarrow>
       (\<forall>b < unat (nblocks sb). d ! b \<le> 1 \<and> i ! b \<le> 1)) \<and>
    ((\<forall>b < unat (nblocks sb).
        occurrences start (direct_addresses m (unat (ninodes sb))) b \<le> 1 \<and>
        occurrences start (indirect_addresses m (unat (ninodes sb))) b \<le> 1) \<longrightarrow>
     check_usage_counts (unat (nblocks sb)) d i = Inr ())"
    using accumulate_usage_length[OF assms] counts direct indirect pass once
    unfolding eq by blast
  from parts whole show ?thesis unfolding eq by blast
qed

theorem uniqueness_first_counter_decides_witness:
  "occurrences 4 (direct_addresses once_each_image 4) 1 = 1 \<and>
   occurrences 4 (indirect_addresses once_each_image 4) 1 = 1 \<and>
   accumulate_usage once_each_image good_sb 4 = Inr ([1, 1, 0, 0], [0, 1, 0, 0]) \<and>
   validate_block_address_uniqueness once_each_image good_sb 4 = Inr () \<and>
   validate_block_address_uniqueness shared_image good_sb 4 =
      exit_with_error ''indirect address used more than once.'' \<and>
   validate_block_address_uniqueness shared_image good_sb 4 \<noteq>
      exit_with_error ''direct address used more than once.'' \<and>
   fcheck shared_image = Some (exit_with_error ''indirect address used more than once.'')"
proof -
  have n: "unat (nblocks good_sb) = 4" and ni: "unat (ninodes good_sb) = 4" by code_simp+
  have once: "accumulate_usage once_each_image good_sb 4 = Inr ([1, 1, 0, 0], [0, 1, 0, 0])"
    by code_simp
  have occ: "occurrences 4 (direct_addresses once_each_image 4) 1 = 1"
    "occurrences 4 (indirect_addresses once_each_image 4) 1 = 1"
    by code_simp+
  have "\<forall>b \<in> set [0, 1, 2, 3 :: nat].
        occurrences 4 (direct_addresses once_each_image 4) b \<le> 1 \<and>
        occurrences 4 (indirect_addresses once_each_image 4) b \<le> 1"
    by code_simp
  moreover have "b < 4 \<Longrightarrow> b \<in> set [0, 1, 2, 3 :: nat]" for b
    by (auto dest!: below_four)
  ultimately have "\<forall>b < unat (nblocks good_sb).
        occurrences 4 (direct_addresses once_each_image (unat (ninodes good_sb))) b \<le> 1 \<and>
        occurrences 4 (indirect_addresses once_each_image (unat (ninodes good_sb))) b \<le> 1"
    unfolding n ni by blast
  with uniqueness_first_counter_decides[OF once]
  have pass: "validate_block_address_uniqueness once_each_image good_sb 4 = Inr ()" by blast
  have acc: "accumulate_usage shared_image good_sb 4 = Inr ([1, 2, 0, 0], [2, 0, 0, 0])"
    by code_simp
  have "\<exists>b < unat (nblocks good_sb). [2, 0, 0, 0 :: 32 word] ! b > 1 \<and> [1, 2, 0, 0 :: 32 word] ! b \<le> 1 \<and>
           (\<forall>c < b. [1, 2, 0, 0 :: 32 word] ! c \<le> 1 \<and> [2, 0, 0, 0 :: 32 word] ! c \<le> 1)"
    unfolding n by (intro exI[of _ 0]) simp
  with uniqueness_first_counter_decides[OF acc]
  have r: "validate_block_address_uniqueness shared_image good_sb 4 =
      exit_with_error ''indirect address used more than once.''" by blast
  then have nd: "validate_block_address_uniqueness shared_image good_sb 4 \<noteq>
      exit_with_error ''direct address used more than once.''" by simp
  have "good_sb = read_superblock shared_image (1 * BSIZE) \<and> 4 = startingblock_of good_sb \<and>
     validate_inodes (bitmapblocks_of good_sb) shared_image good_sb = Inr () \<and>
     verify_bitmap_usage (bitmapblocks_of good_sb) shared_image good_sb 4 = Inr ()"
    by code_simp
  with uniqueness_first_counter_decides[OF acc] r
  have "fcheck shared_image = Some (exit_with_error ''indirect address used more than once.'')"
    by blast
  with occ once pass r nd show ?thesis by blast
qed

section \<open>The order of the checks\<close>

text \<open>
  C3, as stated: a \<open>bad inode.\<close> violation in any inode is reported in preference to a
  bitmap violation in any other inode. On the image below inode 2 has the type 7, the
  root inode 1 uses block 6 whose bitmap bit is clear, and the checker reports the
  bitmap violation of inode 1.
\<close>

theorem ordering_counterexample:
  "type (inode_at order_image 2) = 7 \<and>
   addrs (inode_at order_image 1) ! 1 = 6 \<and>
   \<not> is_bit_set order_image (bitmapblocks_of (read_superblock order_image (1 * BSIZE))) 6 \<and>
   fcheck order_image =
     Some (exit_with_error ''address used by inode but marked free in bitmap.'')"
  by code_simp

text \<open>
  C3, amended. The violation the code meets first is the one reported. The per-inode
  checks run inode by inode: the pass stops with the report of the first inode whose
  iteration reports anything, and within one inode the type check comes first. So a
  \<open>bad inode.\<close> violation in inode \<open>k\<close> is reported in preference to any other per-inode
  violation when no inode before \<open>k\<close> reports anything. A report of the per-inode pass
  is the report of the checker. The counters of the uniqueness check are read block by
  block: a direct counter above 1 at block \<open>b\<close> is reported in preference to any
  indirect counter when no block before \<open>b\<close> has a counter above 1.
\<close>

theorem first_violation_in_code_order:
  "(validate_inodes bitmapblocks m sb = Inl e \<longleftrightarrow>
      (\<exists>k < unat (ninodes sb). validate_inode bitmapblocks m sb k = Inl e \<and>
          (\<forall>j < k. validate_inode bitmapblocks m sb j = Inr ()))) \<and>
   (type (inode_at m k) \<notin> {0, INODE_DIR, INODE_FILE, INODE_DEV} \<longrightarrow>
      validate_inode bitmapblocks m sb k = exit_with_error ''bad inode.'') \<and>
   (validate_inodes (bitmapblocks_of (read_superblock m (1 * BSIZE))) m
        (read_superblock m (1 * BSIZE)) = Inl e \<longrightarrow>
      fcheck m = Some (Inl e)) \<and>
   (b < n \<and> d ! b > 1 \<and> (\<forall>c < b. d ! c \<le> 1 \<and> i ! c \<le> 1) \<longrightarrow>
      check_usage_counts n d i = exit_with_error ''direct address used more than once.'')"
proof (intro conjI impI)
  show "validate_inodes bitmapblocks m sb = Inl e \<longleftrightarrow>
      (\<exists>k < unat (ninodes sb). validate_inode bitmapblocks m sb k = Inl e \<and>
          (\<forall>j < k. validate_inode bitmapblocks m sb j = Inr ()))"
    unfolding validate_inodes_def for_each_upt_Inl_iff by auto
next
  assume "type (inode_at m k) \<notin> {0, INODE_DIR, INODE_FILE, INODE_DEV}"
  then have "type (inode_at m k) \<noteq> 0"
    and "validate_inode_type (inode_at m k) = exit_with_error ''bad inode.''"
    by (auto simp: validate_inode_type_def)
  then show "validate_inode bitmapblocks m sb k = exit_with_error ''bad inode.''"
    by (simp add: validate_inode_def Let_def)
next
  assume "validate_inodes (bitmapblocks_of (read_superblock m (1 * BSIZE))) m
        (read_superblock m (1 * BSIZE)) = Inl e"
  then show "fcheck m = Some (Inl e)"
    by (simp add: fcheck_def Let_def)
next
  assume "b < n \<and> d ! b > 1 \<and> (\<forall>c < b. d ! c \<le> 1 \<and> i ! c \<le> 1)"
  then show "check_usage_counts n d i = exit_with_error ''direct address used more than once.''"
    unfolding exit_with_error_def check_usage_counts_Inl_iff
    by (intro exI[of _ b]) simp
qed

theorem first_violation_in_code_order_witness:
  "validate_inodes 1536 bad_type_image good_sb = exit_with_error ''bad inode.'' \<and>
   fcheck bad_type_image = Some (exit_with_error ''bad inode.'') \<and>
   check_usage_counts 4 [1, 2, 0, 0] [0, 0, 2, 0] =
     exit_with_error ''direct address used more than once.''"
proof -
  let ?e = "Exit (error_line ''bad inode.'')"
  note T = first_violation_in_code_order[of 1536 bad_type_image good_sb ?e 2
              1 4 "[1, 2, 0, 0]" "[0, 0, 2, 0]"]
  have bad: "type (inode_at bad_type_image 2) \<notin> {0, INODE_DIR, INODE_FILE, INODE_DEV}"
    by code_simp
  have n: "unat (ninodes good_sb) = 4" by code_simp
  have v0: "validate_inode 1536 bad_type_image good_sb 0 = Inr ()" by code_simp
  have v1: "validate_inode 1536 bad_type_image good_sb 1 = Inr ()" by code_simp
  have before: "\<forall>j < 2. validate_inode 1536 bad_type_image good_sb j = Inr ()"
    using v0 v1 by (auto simp: less_Suc_eq numeral_2_eq_2)
  from T bad have v2: "validate_inode 1536 bad_type_image good_sb 2 = Inl ?e"
    by (simp add: exit_with_error_def)
  have "\<exists>k < unat (ninodes good_sb). validate_inode 1536 bad_type_image good_sb k = Inl ?e \<and>
          (\<forall>j < k. validate_inode 1536 bad_type_image good_sb j = Inr ())"
    using v2 before n by (intro exI[of _ 2]) simp
  with T have pass: "validate_inodes 1536 bad_type_image good_sb = Inl ?e" by blast
  have sb: "read_superblock bad_type_image (1 * BSIZE) = good_sb" by code_simp
  have bm: "bitmapblocks_of good_sb = 1536" by code_simp
  have "validate_inodes (bitmapblocks_of (read_superblock bad_type_image (1 * BSIZE)))
          bad_type_image (read_superblock bad_type_image (1 * BSIZE)) = Inl ?e \<longrightarrow>
        fcheck bad_type_image = Some (Inl ?e)"
    using T by blast
  then have whole: "fcheck bad_type_image = Some (Inl ?e)"
    using pass unfolding sb bm by blast
  have cnt: "(1::nat) < 4 \<and> [1, 2, 0, 0 :: 32 word] ! 1 > 1 \<and>
             (\<forall>c < 1. [1, 2, 0, 0 :: 32 word] ! c \<le> 1 \<and> [0, 0, 2, 0 :: 32 word] ! c \<le> 1)"
    by simp
  with T have "check_usage_counts 4 [1, 2, 0, 0] [0, 0, 2, 0] =
     exit_with_error ''direct address used more than once.''" by blast
  with pass whole show ?thesis by (simp add: exit_with_error_def)
qed

section \<open>The reference rules\<close>

text \<open>
  C6. The counter array has one element per inode and starts with the count 1 for inode
  0 and for inode 1. When the traversal from the root returns the counts \<open>refs\<close>, the
  checker goes through the inode indices from 2 up to the inode count and applies at each
  index the four rules in the order of the specification: it passes exactly when no rule
  is violated at any index, and it stops with a message exactly when that message is the
  first violated rule of the first index at which a rule is violated.
\<close>

theorem validate_directory_rules_in_order:
  assumes "2 \<le> unat (ninodes sb)"
    and "scan_directory_entries m 1 ((replicate (unat (ninodes sb)) 0)[0 := 1, 1 := 1]) =
           Some (Inr refs)"
  shows "(validate_directory_rules m sb = Some (Inr ()) \<longleftrightarrow>
            (\<forall>k. 2 \<le> k \<and> k < unat (ninodes sb) \<longrightarrow>
                 spec_reference_rule (inode_at m k) (refs ! k) = None)) \<and>
         (validate_directory_rules m sb = Some (exit_with_error msg) \<longleftrightarrow>
            (\<exists>k. 2 \<le> k \<and> k < unat (ninodes sb) \<and>
                 spec_reference_rule (inode_at m k) (refs ! k) = Some msg \<and>
                 (\<forall>j. 2 \<le> j \<and> j < k \<longrightarrow>
                      spec_reference_rule (inode_at m j) (refs ! j) = None)))"
proof -
  let ?body = "\<lambda>k. case spec_reference_rule (inode_at m k) (refs ! k) of
                     None \<Rightarrow> Inr () | Some msg \<Rightarrow> (exit_with_error msg :: err + unit)"
  have res: "validate_directory_rules m sb = Some (for_each [2..<unat (ninodes sb)] ?body)"
    using assms by (simp add: validate_directory_rules_seeded check_references_spec)
  have ok: "?body k = Inr () \<longleftrightarrow> spec_reference_rule (inode_at m k) (refs ! k) = None" for k
    by (simp split: option.splits)
  have bad: "?body k = Inl (Exit (error_line msg)) \<longleftrightarrow>
             spec_reference_rule (inode_at m k) (refs ! k) = Some msg" for k
    by (simp add: exit_with_error_def split: option.splits)
  show ?thesis
    unfolding res option.inject exit_with_error_def for_each_upt_Inl_iff for_each_upt_Inr_iff
      ok bad
    by blast
qed

theorem validate_directory_rules_in_order_witness:
  "validate_directory_rules nlink_image good_sb =
     Some (exit_with_error ''bad reference count for file.'')"
proof -
  have n: "2 \<le> unat (ninodes good_sb)" by code_simp
  have n4: "unat (ninodes good_sb) = 4" by code_simp
  have scan: "scan_directory_entries nlink_image 1
                ((replicate (unat (ninodes good_sb)) 0)[0 := 1, 1 := 1]) = Some (Inr [1, 1, 1, 0])"
    by code_simp
  have r2: "spec_reference_rule (inode_at nlink_image 2) ([1, 1, 1, 0] ! 2) =
              Some ''bad reference count for file.''"
    by code_simp
  have "\<exists>k. 2 \<le> k \<and> k < unat (ninodes good_sb) \<and>
          spec_reference_rule (inode_at nlink_image k) ([1, 1, 1, 0] ! k) =
            Some ''bad reference count for file.'' \<and>
          (\<forall>j. 2 \<le> j \<and> j < k \<longrightarrow>
               spec_reference_rule (inode_at nlink_image j) ([1, 1, 1, 0] ! j) = None)"
    using r2 n4 by (intro exI[of _ 2]) auto
  with validate_directory_rules_in_order[OF n scan, of "''bad reference count for file.''"]
  show ?thesis by blast
qed

section \<open>Addresses marked free in the bitmap\<close>

text \<open>
  C4, as stated: the checker stops with \<open>address used by inode but marked free in
  bitmap.\<close> if and only if some in-use inode has a non-zero address whose bitmap bit is
  clear. On the image below the in-use file inode 2 has block 6 in its first direct
  slot, the bitmap bit of block 6 is clear, and the checker stops with
  \<open>bad direct address in inode.\<close>, because the second direct slot of the same inode is
  out of range and the range check comes first.
\<close>

theorem bitmap_forward_counterexample:
  "type (inode_at masked_image 2) = INODE_FILE \<and>
   addrs (inode_at masked_image 2) ! 0 = 6 \<and>
   \<not> is_bit_set masked_image (bitmapblocks_of (read_superblock masked_image (1 * BSIZE))) 6 \<and>
   fcheck masked_image = Some (exit_with_error ''bad direct address in inode.'')"
  by code_simp

text \<open>
  The bitmap check of an inode reads the entries of the block its indirect slot names also
  when that slot is zero, which is block 0 of the image. On the image below no in-use
  inode has an indirect block, every non-zero address of an in-use inode has its bitmap
  bit set, the first word of block 0 is 6, and the checker stops with the message.
\<close>

lemma block_zero_entry_reported:
  "list_all (\<lambda>k. type (inode_at boot_image k) = 0 \<or>
       addrs (inode_at boot_image k) ! NDIRECT = 0 \<and>
       list_all (\<lambda>s. addrs (inode_at boot_image k) ! s = 0 \<or>
                      is_bit_set boot_image (bitmapblocks_of (read_superblock boot_image (1 * BSIZE)))
                        (addrs (inode_at boot_image k) ! s)) [0..<NDIRECT])
     [0..<unat (ninodes (read_superblock boot_image (1 * BSIZE)))] \<and>
   indirect_at boot_image 0 0 = 6 \<and>
   fcheck boot_image =
     Some (exit_with_error ''address used by inode but marked free in bitmap.'')"
  by code_simp

text \<open>
  C4, amended. The checker stops with \<open>address used by inode but marked free in
  bitmap.\<close> exactly when the first inode whose checks report anything is an in-use
  inode that passes the type, range and directory checks and fails the bitmap check. The
  bitmap check of an inode fails whenever one of its non-zero direct addresses or its
  non-zero indirect address has a clear bitmap bit; for an inode whose indirect slot is
  not zero it fails exactly when such an address, or a non-zero entry inside the indirect
  block, has a clear bitmap bit. No later pass reports this message.
\<close>

theorem bitmap_forward_check:
  "(addrs (inode_at m k) ! NDIRECT \<noteq> 0 \<longrightarrow>
      (validate_bitmap_addr bitmapblocks (inode_at m k) m =
         exit_with_error ''address used by inode but marked free in bitmap.'' \<longleftrightarrow>
       (\<exists>s \<le> NDIRECT. addrs (inode_at m k) ! s \<noteq> 0 \<and>
           \<not> is_bit_set m bitmapblocks (addrs (inode_at m k) ! s)) \<or>
       (\<exists>j < NINDIRECT. indirect_at m (addrs (inode_at m k) ! NDIRECT) j \<noteq> 0 \<and>
           \<not> is_bit_set m bitmapblocks (indirect_at m (addrs (inode_at m k) ! NDIRECT) j)))) \<and>
   ((\<exists>s \<le> NDIRECT. addrs (inode_at m k) ! s \<noteq> 0 \<and>
        \<not> is_bit_set m bitmapblocks (addrs (inode_at m k) ! s)) \<longrightarrow>
      validate_bitmap_addr bitmapblocks (inode_at m k) m =
        exit_with_error ''address used by inode but marked free in bitmap.'') \<and>
   (validate_inode bitmapblocks m sb k =
        exit_with_error ''address used by inode but marked free in bitmap.'' \<longleftrightarrow>
      type (inode_at m k) \<noteq> 0 \<and>
      validate_inode_type (inode_at m k) = Inr () \<and>
      validate_block_addresses sb (inode_at m k) m = Inr () \<and>
      (k = 1 \<longrightarrow> type (inode_at m k) = INODE_DIR) \<and>
      (type (inode_at m k) = INODE_DIR \<longrightarrow>
         validate_directory_structure (inode_at m k) m k = Inr ()) \<and>
      validate_bitmap_addr bitmapblocks (inode_at m k) m =
        exit_with_error ''address used by inode but marked free in bitmap.'') \<and>
   (fcheck m = Some (exit_with_error ''address used by inode but marked free in bitmap.'') \<longleftrightarrow>
      (\<exists>i < unat (ninodes (read_superblock m (1 * BSIZE))).
          validate_inode (bitmapblocks_of (read_superblock m (1 * BSIZE))) m
              (read_superblock m (1 * BSIZE)) i =
            exit_with_error ''address used by inode but marked free in bitmap.'' \<and>
          (\<forall>j < i. validate_inode (bitmapblocks_of (read_superblock m (1 * BSIZE))) m
                      (read_superblock m (1 * BSIZE)) j = Inr ())))"
proof (intro conjI impI)
  show "validate_bitmap_addr bitmapblocks (inode_at m k) m =
         exit_with_error ''address used by inode but marked free in bitmap.'' \<longleftrightarrow>
       (\<exists>s \<le> NDIRECT. addrs (inode_at m k) ! s \<noteq> 0 \<and>
           \<not> is_bit_set m bitmapblocks (addrs (inode_at m k) ! s)) \<or>
       (\<exists>j < NINDIRECT. indirect_at m (addrs (inode_at m k) ! NDIRECT) j \<noteq> 0 \<and>
           \<not> is_bit_set m bitmapblocks (indirect_at m (addrs (inode_at m k) ! NDIRECT) j))"
    by (rule validate_bitmap_addr_iff)
next
  assume "\<exists>s \<le> NDIRECT. addrs (inode_at m k) ! s \<noteq> 0 \<and>
        \<not> is_bit_set m bitmapblocks (addrs (inode_at m k) ! s)"
  then show "validate_bitmap_addr bitmapblocks (inode_at m k) m =
        exit_with_error ''address used by inode but marked free in bitmap.''"
    unfolding validate_bitmap_addr_iff by blast
next
  show "validate_inode bitmapblocks m sb k =
        exit_with_error ''address used by inode but marked free in bitmap.'' \<longleftrightarrow>
      type (inode_at m k) \<noteq> 0 \<and>
      validate_inode_type (inode_at m k) = Inr () \<and>
      validate_block_addresses sb (inode_at m k) m = Inr () \<and>
      (k = 1 \<longrightarrow> type (inode_at m k) = INODE_DIR) \<and>
      (type (inode_at m k) = INODE_DIR \<longrightarrow>
         validate_directory_structure (inode_at m k) m k = Inr ()) \<and>
      validate_bitmap_addr bitmapblocks (inode_at m k) m =
        exit_with_error ''address used by inode but marked free in bitmap.''"
    by (rule validate_inode_bitmap_iff)
next
  show "fcheck m = Some (exit_with_error ''address used by inode but marked free in bitmap.'') \<longleftrightarrow>
      (\<exists>i < unat (ninodes (read_superblock m (1 * BSIZE))).
          validate_inode (bitmapblocks_of (read_superblock m (1 * BSIZE))) m
              (read_superblock m (1 * BSIZE)) i =
            exit_with_error ''address used by inode but marked free in bitmap.'' \<and>
          (\<forall>j < i. validate_inode (bitmapblocks_of (read_superblock m (1 * BSIZE))) m
                      (read_superblock m (1 * BSIZE)) j = Inr ()))"
    unfolding fcheck_bitmap_iff
    unfolding validate_inodes_def exit_with_error_def for_each_upt_Inl_iff
    by auto
qed

theorem bitmap_forward_check_witness:
  "addrs (inode_at clear_image 2) ! NDIRECT \<noteq> 0 \<and>
   validate_bitmap_addr 1536 (inode_at clear_image 2) clear_image =
     exit_with_error ''address used by inode but marked free in bitmap.'' \<and>
   validate_inode 1536 clear_image good_sb 2 =
     exit_with_error ''address used by inode but marked free in bitmap.'' \<and>
   fcheck clear_image =
     Some (exit_with_error ''address used by inode but marked free in bitmap.'')"
proof -
  let ?X = "''address used by inode but marked free in bitmap.''"
  note T = bitmap_forward_check[of clear_image 2 1536 good_sb]
  have slot: "addrs (inode_at clear_image 2) ! NDIRECT = 6" by code_simp
  have bit: "\<not> is_bit_set clear_image 1536 6" by code_simp
  have "\<exists>s \<le> NDIRECT. addrs (inode_at clear_image 2) ! s \<noteq> 0 \<and>
           \<not> is_bit_set clear_image 1536 (addrs (inode_at clear_image 2) ! s)"
    using slot bit by (intro exI[of _ NDIRECT]) simp
  with T have b: "validate_bitmap_addr 1536 (inode_at clear_image 2) clear_image =
     exit_with_error ?X" by blast
  have pre: "type (inode_at clear_image 2) \<noteq> 0 \<and>
      validate_inode_type (inode_at clear_image 2) = Inr () \<and>
      validate_block_addresses good_sb (inode_at clear_image 2) clear_image = Inr () \<and>
      ((2::nat) = 1 \<longrightarrow> type (inode_at clear_image 2) = INODE_DIR) \<and>
      (type (inode_at clear_image 2) = INODE_DIR \<longrightarrow>
         validate_directory_structure (inode_at clear_image 2) clear_image 2 = Inr ())"
    by code_simp
  with T b have v2: "validate_inode 1536 clear_image good_sb 2 = exit_with_error ?X"
    by blast
  have sb: "read_superblock clear_image (1 * BSIZE) = good_sb" by code_simp
  have bm: "bitmapblocks_of good_sb = 1536" by code_simp
  have n: "unat (ninodes good_sb) = 4" by code_simp
  have v0: "validate_inode 1536 clear_image good_sb 0 = Inr ()" by code_simp
  have v1: "validate_inode 1536 clear_image good_sb 1 = Inr ()" by code_simp
  have before: "\<forall>j < 2. validate_inode 1536 clear_image good_sb j = Inr ()"
    using v0 v1 by (auto simp: less_Suc_eq numeral_2_eq_2)
  have "\<exists>i < unat (ninodes good_sb).
          validate_inode 1536 clear_image good_sb i = exit_with_error ?X \<and>
          (\<forall>j < i. validate_inode 1536 clear_image good_sb j = Inr ())"
    using v2 before n by (intro exI[of _ 2]) simp
  with T have "fcheck clear_image = Some (exit_with_error ?X)"
    unfolding sb bm by blast
  with slot b v2 show ?thesis by simp
qed

section \<open>Indices into the usage arrays\<close>

text \<open>
  C10: a block address of an in-use inode that passed the range check gives an index
  inside the usage arrays, so that every access to them is in bounds. The range check
  compares an address with the total block count only, and the index
  \<open>address - start\<close> is taken in \<open>unsigned int\<close> with no comparison against the
  number of data blocks. On the image below the root inode names block 3 in its second
  direct slot; block 3 is below the total block count 8 and its bitmap bit is set, so the
  per-inode pass reports nothing; the data region starts at block 4, the index \<open>3 - 4\<close>
  is \<open>4294967295\<close>, and the store into the array of 4 usage flags is out of bounds.
\<close>

theorem usage_index_counterexample:
  "type (inode_at low_image 1) = INODE_DIR \<and>
   addrs (inode_at low_image 1) ! 1 = 3 \<and>
   3 < size_sb (read_superblock low_image (1 * BSIZE)) \<and>
   validate_inodes (bitmapblocks_of (read_superblock low_image (1 * BSIZE))) low_image
     (read_superblock low_image (1 * BSIZE)) = Inr () \<and>
   startingblock_of (read_superblock low_image (1 * BSIZE)) = 4 \<and>
   nblocks (read_superblock low_image (1 * BSIZE)) = 4 \<and>
   uint (3 - 4 :: 32 word) = 4294967295 \<and>
   fcheck low_image = Some (Inl OutOfBounds)"
  by code_simp

text \<open>
  Where the accesses out of bounds come from. The index of a store is
  \<open>address - start\<close> in \<open>unsigned int\<close>; when the data region
  \<open>start, \<dots>, start + nblocks - 1\<close> does not wrap around, the index is inside an array
  of \<open>nblocks\<close> elements exactly when the address lies in the data region. The reverse
  bitmap check makes an access out of bounds exactly when some in-use inode has a
  non-zero direct address, indirect address or entry of its indirect block whose index is
  outside, and the uniqueness check exactly when some in-use inode has a non-zero direct
  address or entry of its indirect block whose index is outside.
\<close>

lemma usage_fault_address:
  "(uint start + uint (nblocks sb) < 2 ^ 32 \<longrightarrow>
      (uint (a - start) < uint (nblocks sb) \<longleftrightarrow> start \<le> a \<and> a < start + nblocks sb)) \<and>
   (verify_bitmap_usage bitmapblocks m sb start = Inl OutOfBounds \<longleftrightarrow>
      (\<exists>k < unat (ninodes sb). type (inode_at m k) \<noteq> 0 \<and>
          marks_outside m (unat (nblocks sb)) start (inode_at m k))) \<and>
   (validate_block_address_uniqueness m sb start = Inl OutOfBounds \<longleftrightarrow>
      (\<exists>k < unat (ninodes sb). type (inode_at m k) \<noteq> 0 \<and>
          counts_outside m (unat (nblocks sb)) start (inode_at m k)))"
  using index_inside_iff[of start "nblocks sb" a]
    verify_bitmap_usage_fault_iff[of bitmapblocks m sb start]
    validate_block_address_uniqueness_fault_iff[of m sb start]
  by blast

section \<open>Indices into the reference counters\<close>

text \<open>
  C9: every inode number the traversal uses as an index is below the inode count, so
  that every access to the array of reference counters is in bounds. The code increments
  \<open>inodemap[dir->inum]\<close> without comparing \<open>dir->inum\<close> with the inode count. On the
  image below the entry \<open>a\<close> of the root directory names inode 9, the image has 4
  inodes, the first three passes report nothing, and the increment of the counter of
  inode 9 is out of bounds.
\<close>

theorem traversal_index_counterexample:
  "counted (dirent_at wild_image 4 2) \<and>
   inum (dirent_at wild_image 4 2) = 9 \<and>
   ninodes (read_superblock wild_image (1 * BSIZE)) = 4 \<and>
   validate_inodes (bitmapblocks_of (read_superblock wild_image (1 * BSIZE))) wild_image
     (read_superblock wild_image (1 * BSIZE)) = Inr () \<and>
   verify_bitmap_usage (bitmapblocks_of (read_superblock wild_image (1 * BSIZE))) wild_image
     (read_superblock wild_image (1 * BSIZE))
     (startingblock_of (read_superblock wild_image (1 * BSIZE))) = Inr () \<and>
   validate_block_address_uniqueness wild_image (read_superblock wild_image (1 * BSIZE))
     (startingblock_of (read_superblock wild_image (1 * BSIZE))) = Inr () \<and>
   fcheck wild_image = Some (Inl OutOfBounds)"
  by code_simp

text \<open>
  Where the accesses out of bounds come from. A run of the traversal from a root below
  the length of the counter array that stops at an access out of bounds has reached a
  directory with a counted entry naming an inode at or above that length; a run that
  returns the counters has reached no such directory and returns an array of the same
  length. In \<open>validate_directory_rules\<close> an access out of bounds is either the seeding
  of the counters of inodes 0 and 1 with fewer than 2 inodes, or such an entry reached
  from inode 1; and a run of that pass that ends in any other way had at least 2 inodes
  and reached no such entry from inode 1.
\<close>

lemma traversal_fault_entry:
  "(rootinode < length inodemap \<and>
    scan_directory_entries m rootinode inodemap = Some (Inl e) \<longrightarrow>
      e = OutOfBounds \<and> reaches_outside m (length inodemap) rootinode) \<and>
   (scan_directory_entries m rootinode inodemap = Some (Inr inodemap') \<longrightarrow>
      length inodemap' = length inodemap \<and> \<not> reaches_outside m (length inodemap) rootinode) \<and>
   (validate_directory_rules m sb = Some (Inl OutOfBounds) \<longrightarrow>
      unat (ninodes sb) < 2 \<or> reaches_outside m (unat (ninodes sb)) 1) \<and>
   (validate_directory_rules m sb = Some res \<and> res \<noteq> Inl OutOfBounds \<longrightarrow>
      2 \<le> unat (ninodes sb) \<and> \<not> reaches_outside m (unat (ninodes sb)) 1)"
proof -
  have fault: "e = OutOfBounds \<and> reaches_outside m (length inodemap) rootinode"
    if "rootinode < length inodemap \<and>
        scan_directory_entries m rootinode inodemap = Some (Inl e)"
    using that unfolding scan_directory_entries_def by (auto dest: scan_loop_fault)
  have return: "length inodemap' = length inodemap \<and>
             \<not> reaches_outside m (length inodemap) rootinode"
    if "scan_directory_entries m rootinode inodemap = Some (Inr inodemap')"
    using that unfolding scan_directory_entries_def by (auto dest: scan_loop_in_bounds)
  have rules_fault: "unat (ninodes sb) < 2 \<or> reaches_outside m (unat (ninodes sb)) 1"
    if run: "validate_directory_rules m sb = Some (Inl OutOfBounds)"
  proof (cases "2 \<le> unat (ninodes sb)")
    case True
    let ?seeded = "(replicate (unat (ninodes sb)) (0::int))[0 := 1, 1 := 1]"
    have len: "length ?seeded = unat (ninodes sb)" by simp
    from True have "\<forall>x \<in> set [1 :: nat]. x < length ?seeded" by simp
    from run scan_loop_fault[OF _ this, of m] show ?thesis
      unfolding validate_directory_rules_seeded[OF True] scan_directory_entries_def len
      by (auto split: option.splits sum.splits dest!: check_references_errors)
  next
    case False
    then show ?thesis by simp
  qed
  have rules_return: "2 \<le> unat (ninodes sb) \<and> \<not> reaches_outside m (unat (ninodes sb)) 1"
    if run: "validate_directory_rules m sb = Some res \<and> res \<noteq> Inl OutOfBounds"
  proof -
    from run have n: "2 \<le> unat (ninodes sb)"
      using validate_directory_rules_small[of sb m] by (cases "unat (ninodes sb) < 2") auto
    from run have "\<not> reaches_outside m (unat (ninodes sb)) 1"
      unfolding validate_directory_rules_seeded[OF n] scan_directory_entries_def
      by (auto split: option.splits sum.splits dest!: scan_loop_in_bounds scan_loop_errors)
    with n show ?thesis ..
  qed
  from fault return rules_fault rules_return show ?thesis by blast
qed

section \<open>Termination of the traversal\<close>




text \<open>
  On the image with the cycle the first three passes report nothing, so the checker as a
  whole does not terminate.
\<close>

lemma fcheck_cyclic_image: "fcheck cyclic_image = None"
proof -
  have sb: "read_superblock cyclic_image BSIZE = good_sb" by code_simp
  have passes: "validate_inodes (bitmapblocks_of good_sb) cyclic_image good_sb = Inr ()"
    "verify_bitmap_usage (bitmapblocks_of good_sb) cyclic_image good_sb
       (startingblock_of good_sb) = Inr ()"
    "validate_block_address_uniqueness cyclic_image good_sb (startingblock_of good_sb) = Inr ()"
    by code_simp+
  have n: "2 \<le> unat (ninodes good_sb)" by code_simp
  have seed: "(replicate (unat (ninodes good_sb)) 0)[0 := 1, Suc 0 := 1] = [1, 1, 0, 0 :: int]"
    by code_simp
  have len: "length [1, 1, 0, 0 :: int] = 4" by simp
  have "\<not> reaches_outside cyclic_image (length [1, 1, 0, 0 :: int]) 1"
    unfolding len by (rule cyclic_image_in_bounds)
  moreover have "reaches_cycle cyclic_image (length [1, 1, 0, 0 :: int]) 1"
    unfolding len by (rule cyclic_image_reaches_cycle)
  ultimately have "scan_directory_entries cyclic_image 1 [1, 1, 0, 0] = None"
    unfolding scan_directory_entries_def by (intro scan_loop_diverges)
  then have "validate_directory_rules cyclic_image good_sb = None"
    by (simp add: validate_directory_rules_seeded[OF n] seed)
  then show ?thesis
    by (simp add: fcheck_def Let_def sb passes)
qed

section \<open>The root directory\<close>

text \<open>
  C1, as stated: when inode 1 is in use and its first direct address is zero, the checker
  stops with \<open>root directory does not exist.\<close>. On the image below the first direct
  slot of the root inode is zero, the block of the root directory is named by the second
  slot, and the checker reports nothing.
\<close>

theorem root_directory_counterexample:
  "type (inode_at second_slot_image 1) = INODE_DIR \<and>
   addrs (inode_at second_slot_image 1) ! 0 = 0 \<and>
   fcheck second_slot_image = Some (Inr ())"
  by code_simp

text \<open>
  C1, amended. Take an image with more than one inode in which inode 1 is in use, the
  iteration for inode 0 reports nothing, and inode 1 passes the type check and the range
  check. The checker stops at inode 1 with \<open>root directory does not exist.\<close> when the
  type of inode 1 is not Directory. When it is Directory the checker stops at inode 1 with
  that message exactly when the scan of the direct blocks of inode 1 for \<open>.\<close> and \<open>..\<close>
  does; this needs an entry \<open>..\<close> with another inode number than 1 in one of the
  direct blocks, and it happens when, in the first direct block that is not zero, such an
  entry comes after entries none of which is named \<open>..\<close> or is a \<open>.\<close> with another
  inode number than 1. A zero first direct address, or \<open>.\<close> and \<open>..\<close> elsewhere than
  in the first two entries, is not reported by itself.
\<close>

theorem root_directory_check:
  assumes "1 < unat (ninodes sb)"
    and "validate_inode bitmapblocks m sb 0 = Inr ()"
    and "type (inode_at m 1) \<noteq> 0"
    and "validate_inode_type (inode_at m 1) = Inr ()"
    and "validate_block_addresses sb (inode_at m 1) m = Inr ()"
  shows
   "(type (inode_at m 1) \<noteq> INODE_DIR \<longrightarrow>
       validate_inode bitmapblocks m sb 1 = exit_with_error ''root directory does not exist.'') \<and>
    (type (inode_at m 1) = INODE_DIR \<longrightarrow>
       (validate_inode bitmapblocks m sb 1 = exit_with_error ''root directory does not exist.'' \<longleftrightarrow>
        validate_directory_structure (inode_at m 1) m 1 =
          exit_with_error ''root directory does not exist.'')) \<and>
    (validate_inode bitmapblocks m sb 1 = exit_with_error ''root directory does not exist.'' \<longrightarrow>
       validate_inodes bitmapblocks m sb = exit_with_error ''root directory does not exist.'') \<and>
    (sb = read_superblock m (1 * BSIZE) \<and> bitmapblocks = bitmapblocks_of sb \<and>
     validate_inodes bitmapblocks m sb = exit_with_error ''root directory does not exist.'' \<longrightarrow>
       fcheck m = Some (exit_with_error ''root directory does not exist.'')) \<and>
    (validate_directory_structure (inode_at m 1) m 1 =
         exit_with_error ''root directory does not exist.'' \<longrightarrow>
       (\<exists>k < NDIRECT. addrs (inode_at m 1) ! k \<noteq> 0 \<and>
          (\<exists>j < entries_per_block.
             strcmp_eq (name (dirent_at m (addrs (inode_at m 1) ! k) j)) ''..'' \<and>
             unat (inum (dirent_at m (addrs (inode_at m 1) ! k) j)) \<noteq> 1))) \<and>
    (\<forall>k j. k < NDIRECT \<and> addrs (inode_at m 1) ! k \<noteq> 0 \<and>
           (\<forall>k' < k. addrs (inode_at m 1) ! k' = 0) \<and>
           j < entries_per_block \<and>
           strcmp_eq (name (dirent_at m (addrs (inode_at m 1) ! k) j)) ''..'' \<and>
           unat (inum (dirent_at m (addrs (inode_at m 1) ! k) j)) \<noteq> 1 \<and>
           (\<forall>i < j. \<not> strcmp_eq (name (dirent_at m (addrs (inode_at m 1) ! k) i)) ''..'' \<and>
                (strcmp_eq (name (dirent_at m (addrs (inode_at m 1) ! k) i)) ''.'' \<longrightarrow>
                   unat (inum (dirent_at m (addrs (inode_at m 1) ! k) i)) = 1)) \<longrightarrow>
       validate_directory_structure (inode_at m 1) m 1 =
         exit_with_error ''root directory does not exist.'')"
proof -
  let ?root = "exit_with_error ''root directory does not exist.'' :: err + unit"
  have not_dir: "validate_inode bitmapblocks m sb 1 = ?root"
    if "type (inode_at m 1) \<noteq> INODE_DIR"
    using that assms(3,4,5) by (simp add: validate_inode_def Let_def)
  have dir: "validate_inode bitmapblocks m sb 1 = ?root \<longleftrightarrow>
             validate_directory_structure (inode_at m 1) m 1 = ?root"
    if "type (inode_at m 1) = INODE_DIR"
  proof -
    have "validate_inode bitmapblocks m sb 1 =
            andthen (validate_directory_structure (inode_at m 1) m 1)
              (validate_bitmap_addr bitmapblocks (inode_at m 1) m)"
      using that assms(3,4,5) by (simp add: validate_inode_def Let_def)
    then show ?thesis
      by (auto simp: exit_with_error_def andthen_Inl_iff dest!: validate_bitmap_addr_errors)
  qed
  have pass: "validate_inodes bitmapblocks m sb = ?root"
    if "validate_inode bitmapblocks m sb 1 = ?root"
  proof -
    have "\<exists>i. 0 \<le> i \<and> i < unat (ninodes sb) \<and>
            validate_inode bitmapblocks m sb i = Inl (Exit (error_line ''root directory does not exist.'')) \<and>
            (\<forall>j. 0 \<le> j \<and> j < i \<longrightarrow> validate_inode bitmapblocks m sb j = Inr ())"
      using that assms(1,2) by (intro exI[of _ 1]) (auto simp: exit_with_error_def)
    then show ?thesis
      unfolding validate_inodes_def exit_with_error_def for_each_upt_Inl_iff .
  qed
  have whole: "fcheck m = Some ?root"
    if "sb = read_superblock m (1 * BSIZE) \<and> bitmapblocks = bitmapblocks_of sb \<and>
        validate_inodes bitmapblocks m sb = ?root"
    using that by (auto simp: fcheck_def Let_def exit_with_error_def)
  have needs: "\<exists>k < NDIRECT. addrs (inode_at m 1) ! k \<noteq> 0 \<and>
          (\<exists>j < entries_per_block.
             strcmp_eq (name (dirent_at m (addrs (inode_at m 1) ! k) j)) ''..'' \<and>
             unat (inum (dirent_at m (addrs (inode_at m 1) ! k) j)) \<noteq> 1)"
    if "validate_directory_structure (inode_at m 1) m 1 = ?root"
    using that by (rule validate_directory_structure_root)
  have enough: "validate_directory_structure (inode_at m 1) m 1 = ?root"
    if "k < NDIRECT \<and> addrs (inode_at m 1) ! k \<noteq> 0 \<and>
           (\<forall>k' < k. addrs (inode_at m 1) ! k' = 0) \<and>
           j < entries_per_block \<and>
           strcmp_eq (name (dirent_at m (addrs (inode_at m 1) ! k) j)) ''..'' \<and>
           unat (inum (dirent_at m (addrs (inode_at m 1) ! k) j)) \<noteq> 1 \<and>
           (\<forall>i < j. \<not> strcmp_eq (name (dirent_at m (addrs (inode_at m 1) ! k) i)) ''..'' \<and>
                (strcmp_eq (name (dirent_at m (addrs (inode_at m 1) ! k) i)) ''.'' \<longrightarrow>
                   unat (inum (dirent_at m (addrs (inode_at m 1) ! k) i)) = 1))" for k j
    using that by (intro validate_directory_structure_dotdot[of k _ j]) blast+
  from not_dir dir pass whole needs enough show ?thesis by blast
qed

theorem root_directory_check_witness:
  "validate_directory_structure (inode_at parent_image 1) parent_image 1 =
     exit_with_error ''root directory does not exist.'' \<and>
   validate_inodes 1536 parent_image good_sb =
     exit_with_error ''root directory does not exist.'' \<and>
   fcheck parent_image = Some (exit_with_error ''root directory does not exist.'') \<and>
   validate_inode 1536 file_root_image good_sb 1 =
     exit_with_error ''root directory does not exist.''"
proof -
  have pre: "1 < unat (ninodes good_sb)"
    "validate_inode 1536 parent_image good_sb 0 = Inr ()"
    "type (inode_at parent_image 1) \<noteq> 0"
    "validate_inode_type (inode_at parent_image 1) = Inr ()"
    "validate_block_addresses good_sb (inode_at parent_image 1) parent_image = Inr ()"
    by code_simp+
  note T = root_directory_check[OF pre]
  have dir: "type (inode_at parent_image 1) = INODE_DIR" by code_simp
  have slot: "(0::nat) < NDIRECT" "addrs (inode_at parent_image 1) ! 0 = 4"
    "(1::nat) < entries_per_block" by code_simp+
  have entry: "strcmp_eq (name (dirent_at parent_image 4 1)) ''..''"
    "unat (inum (dirent_at parent_image 4 1)) \<noteq> 1"
    "\<not> strcmp_eq (name (dirent_at parent_image 4 0)) ''..''"
    "unat (inum (dirent_at parent_image 4 0)) = 1"
    by code_simp+
  have "0 < NDIRECT \<and> addrs (inode_at parent_image 1) ! 0 \<noteq> 0 \<and>
           (\<forall>k' < 0. addrs (inode_at parent_image 1) ! k' = 0) \<and>
           1 < entries_per_block \<and>
           strcmp_eq (name (dirent_at parent_image (addrs (inode_at parent_image 1) ! 0) 1)) ''..'' \<and>
           unat (inum (dirent_at parent_image (addrs (inode_at parent_image 1) ! 0) 1)) \<noteq> 1 \<and>
           (\<forall>i < 1. \<not> strcmp_eq (name (dirent_at parent_image (addrs (inode_at parent_image 1) ! 0) i)) ''..'' \<and>
                (strcmp_eq (name (dirent_at parent_image (addrs (inode_at parent_image 1) ! 0) i)) ''.'' \<longrightarrow>
                   unat (inum (dirent_at parent_image (addrs (inode_at parent_image 1) ! 0) i)) = 1))"
    using slot entry by simp
  with T have vds: "validate_directory_structure (inode_at parent_image 1) parent_image 1 =
     exit_with_error ''root directory does not exist.''" by blast
  with T dir have v1: "validate_inode 1536 parent_image good_sb 1 =
     exit_with_error ''root directory does not exist.''" by blast
  with T have pass: "validate_inodes 1536 parent_image good_sb =
     exit_with_error ''root directory does not exist.''" by blast
  have sb: "good_sb = read_superblock parent_image (1 * BSIZE) \<and> 1536 = bitmapblocks_of good_sb"
    by code_simp
  with T pass have whole: "fcheck parent_image =
     Some (exit_with_error ''root directory does not exist.'')" by blast
  have pre': "1 < unat (ninodes good_sb)"
    "validate_inode 1536 file_root_image good_sb 0 = Inr ()"
    "type (inode_at file_root_image 1) \<noteq> 0"
    "validate_inode_type (inode_at file_root_image 1) = Inr ()"
    "validate_block_addresses good_sb (inode_at file_root_image 1) file_root_image = Inr ()"
    by code_simp+
  have "type (inode_at file_root_image 1) \<noteq> INODE_DIR" by code_simp
  with root_directory_check[OF pre']
  have "validate_inode 1536 file_root_image good_sb 1 =
     exit_with_error ''root directory does not exist.''" by blast
  with vds pass whole show ?thesis by simp
qed

end
